theory Spec2Isabelle
  imports Main
begin

section \<open>Python values\<close>

text \<open>
  The agent outputs are whatever \<^verbatim>\<open>json.loads\<close> returns: \<^verbatim>\<open>None\<close>, a bool, an int, a
  float, a str, a list or a dict.  A dict is an association list in insertion order
  (\<^verbatim>\<open>json.loads\<close> never yields a key twice); a float is kept as mantissa and binary
  exponent, which is all that its truth value needs.
\<close>

datatype pyfloat = Finite int int | Infinity bool | NaN

datatype pyval =
    PNone
  | PBool bool
  | PInt int
  | PFloat pyfloat
  | PStr string
  | PList "pyval list"
  | PDict "(string \<times> pyval) list"

type_synonym pydict = "(string \<times> pyval) list"

text \<open>The truth value Python gives a value in \<^verbatim>\<open>if v:\<close> and \<^verbatim>\<open>not v\<close>.\<close>

fun truthy :: "pyval \<Rightarrow> bool" where
  "truthy PNone = False"
| "truthy (PBool b) = b"
| "truthy (PInt i) = (i \<noteq> 0)"
| "truthy (PFloat (Finite m e)) = (m \<noteq> 0)"
| "truthy (PFloat (Infinity negative)) = True"
| "truthy (PFloat NaN) = True"
| "truthy (PStr s) = (s \<noteq> [])"
| "truthy (PList xs) = (xs \<noteq> [])"
| "truthy (PDict kvs) = (kvs \<noteq> [])"

text \<open>\<^verbatim>\<open>d.get(key, default)\<close> on a dict.\<close>

definition dict_get :: "pydict \<Rightarrow> string \<Rightarrow> pyval \<Rightarrow> pyval" where
  "dict_get d key dflt = (case map_of d key of Some v \<Rightarrow> v | None \<Rightarrow> dflt)"

text \<open>
  The exceptions the nodes can meet, all of class \<^verbatim>\<open>Exception\<close>.  \<open>ClientError\<close> stands for
  whatever \<^verbatim>\<open>ollama.generate(...)\<close> or the subscript \<^verbatim>\<open>response['response']\<close> raises,
  \<open>RecursionError\<close> is what Python raises on a value nested too deeply; the argument is
  the text \<^verbatim>\<open>str(e)\<close>.
\<close>

datatype exn =
    KeyError string
  | AttributeError string
  | TypeError string
  | RecursionError string
  | ClientError string
  | GraphError string

fun str_exn :: "exn \<Rightarrow> string" where
  "str_exn (KeyError k) = [CHR 0x27] @ k @ [CHR 0x27]"
| "str_exn (AttributeError m) = m"
| "str_exn (TypeError m) = m"
| "str_exn (RecursionError m) = m"
| "str_exn (ClientError m) = m"
| "str_exn (GraphError m) = m"

fun type_name :: "pyval \<Rightarrow> string" where
  "type_name PNone = ''NoneType''"
| "type_name (PBool b) = ''bool''"
| "type_name (PInt i) = ''int''"
| "type_name (PFloat f) = ''float''"
| "type_name (PStr s) = ''str''"
| "type_name (PList xs) = ''list''"
| "type_name (PDict kvs) = ''dict''"

text \<open>\<^verbatim>\<open>len(v)\<close>: only str, list and dict have a length.\<close>

fun py_len :: "pyval \<Rightarrow> exn + nat" where
  "py_len (PStr s) = Inr (length s)"
| "py_len (PList xs) = Inr (length xs)"
| "py_len (PDict kvs) = Inr (length kvs)"
| "py_len v = Inl (TypeError (''object of type '' @ [CHR 0x27] @ type_name v @ [CHR 0x27] @ '' has no len()''))"

text \<open>The message of the AttributeError raised by \<^verbatim>\<open>v.get(...)\<close> when \<open>v\<close> is no dict.\<close>

definition no_get :: "pyval \<Rightarrow> exn" where
  "no_get v = AttributeError ([CHR 0x27] @ type_name v @ [CHR 0x27] @ '' object has no attribute '' @ [CHR 0x27] @ ''get'' @ [CHR 0x27])"

text \<open>
  \<^verbatim>\<open>str.strip()\<close>: leading and trailing whitespace removed.  A \<open>char\<close> is a code point
  below 256; these are the ones Python counts as whitespace.
\<close>

definition py_isspace :: "char \<Rightarrow> bool" where
  "py_isspace c = (of_char c \<in> {9, 10, 11, 12, 13, 28, 29, 30, 31, 32, 133, 160 :: nat})"

definition strip :: "string \<Rightarrow> string" where
  "strip s = rev (dropWhile py_isspace (rev (dropWhile py_isspace s)))"

section \<open>The shared state\<close>

text \<open>
  \<^verbatim>\<open>AgentState\<close> is a TypedDict.  The keys the nodes read with \<^verbatim>\<open>state.get(key, default)\<close>
  may be missing (the correction-loop script starts without \<^verbatim>\<open>strict\<close>), so they are
  optional here; \<^verbatim>\<open>task\<close> and \<^verbatim>\<open>llm\<close> are read with a subscript and are always supplied
  by \<^verbatim>\<open>main\<close>.
\<close>

record AgentState =
  title :: "string option"
  content :: "string option"
  email :: "string option"
  strict :: "bool option"
  task :: string
  llm :: string
  planner_proposal :: "pydict option"
  reviewer_feedback :: "pydict option"
  turn_count :: "int option"

text \<open>\<^verbatim>\<open>state.get(key)\<close> for a dict-valued key: \<^verbatim>\<open>None\<close> when the key is missing.\<close>

definition state_get :: "pydict option \<Rightarrow> pyval" where
  "state_get v = (case v of None \<Rightarrow> PNone | Some d \<Rightarrow> PDict d)"

text \<open>A node returns a dict with one key; the graph overwrites that key of the state.\<close>

datatype update =
    Upd_planner_proposal pydict
  | Upd_reviewer_feedback pydict
  | Upd_turn_count int

fun merge :: "AgentState \<Rightarrow> update \<Rightarrow> AgentState" where
  "merge s (Upd_planner_proposal p) = s\<lparr>planner_proposal := Some p\<rparr>"
| "merge s (Upd_reviewer_feedback f) = s\<lparr>reviewer_feedback := Some f\<rparr>"
| "merge s (Upd_turn_count n) = s\<lparr>turn_count := Some n\<rparr>"

section \<open>Supervisor and router\<close>

definition supervisor_node :: "AgentState \<Rightarrow> update" where
  "supervisor_node s =
     (let current_turn = (case turn_count s of Some n \<Rightarrow> n | None \<Rightarrow> 0);
          new_turn = current_turn + 1
      in Upd_turn_count new_turn)"

text \<open>LangGraph's \<^verbatim>\<open>END\<close> is the string \<^verbatim>\<open>"__end__"\<close>.\<close>

definition END :: string where
  "END = ''__end__''"

definition router_logic :: "AgentState \<Rightarrow> string" where
  "router_logic s =
     (if \<not> truthy (state_get (planner_proposal s)) then ''planner''
      else if \<not> truthy (state_get (reviewer_feedback s)) then ''reviewer''
      else
        let feedback = (case reviewer_feedback s of Some d \<Rightarrow> d | None \<Rightarrow> []);
            has_issues = dict_get feedback ''has_issues'' (PBool False)
        in if truthy has_issues then
             (let turns = (case turn_count s of Some n \<Rightarrow> n | None \<Rightarrow> 0);
                  max_turns = 5
              in if turns \<ge> max_turns then END else ''planner'')
           else END)"

text \<open>
  The words of the specification, read on the state: a proposal or a feedback is absent
  when its key is missing or holds the empty dict, \<open>hasIssues\<close> is the truth value of the
  \<^verbatim>\<open>has_issues\<close> entry (false when there is none), \<open>turnCount\<close> is the counter (0 when
  missing).
\<close>

definition absent :: "pydict option \<Rightarrow> bool" where
  "absent v = (v = None \<or> v = Some [])"

definition hasIssues :: "AgentState \<Rightarrow> bool" where
  "hasIssues s =
     (case reviewer_feedback s of
        None \<Rightarrow> False
      | Some f \<Rightarrow> (case map_of f ''has_issues'' of None \<Rightarrow> False | Some v \<Rightarrow> truthy v))"

definition turnCount :: "AgentState \<Rightarrow> int" where
  "turnCount s = (case turn_count s of None \<Rightarrow> 0 | Some n \<Rightarrow> n)"

section \<open>The agent nodes\<close>

text \<open>
  What the nodes use from outside the repository is a parameter of the model:
  \<^item> \<open>generate k model prompt\<close> is
    \<^verbatim>\<open>ollama.generate(model=model, prompt=prompt)['response']\<close> at the call number \<open>k\<close>
    of a run (the service may answer the same prompt differently each time), \<open>Inl e\<close>
    when it raises;
  \<^item> \<open>loads\<close> is \<^verbatim>\<open>json.loads\<close>, \<open>None\<close> when it raises;
  \<^item> \<open>dumps v indent\<close> is \<^verbatim>\<open>json.dumps(v, indent=indent)\<close>, \<open>Inl e\<close> when it raises (it
    does on a value nested deeper than the interpreter's recursion limit, which
    \<^verbatim>\<open>json.loads\<close> may still have accepted);
  \<^item> \<open>format_value v\<close> is the formatting of a list or dict \<open>v\<close> inside an f-string, \<open>Some e\<close>
    when it raises (again on a value nested too deeply), \<open>None\<close> when it gives a text.
  Writing a text to the console is taken to succeed.
\<close>

record extern =
  generate :: "nat \<Rightarrow> string \<Rightarrow> string \<Rightarrow> exn + string"
  loads :: "string \<Rightarrow> pyval option"
  dumps :: "pyval \<Rightarrow> nat \<Rightarrow> exn + string"
  format_value :: "pyval \<Rightarrow> exn option"

text \<open>
  Formatting \<^verbatim>\<open>None\<close>, a bool, a number or a str inside an f-string always gives a text; only
  a list or a dict goes through the recursive \<^verbatim>\<open>repr\<close>.
\<close>

fun py_format :: "extern \<Rightarrow> pyval \<Rightarrow> exn option" where
  "py_format ext (PList xs) = format_value ext (PList xs)"
| "py_format ext (PDict kvs) = format_value ext (PDict kvs)"
| "py_format ext v = None"

text \<open>The prompt of \<^verbatim>\<open>planner_node\<close> (lines 54 to 67): an f-string over the task.\<close>

definition planner_prompt :: "AgentState \<Rightarrow> string" where
  \<open>planner_prompt s =
     ''You are a Planner Agent. Create a concise, step-by-step plan for this task:\<newline>''
     @ ''\<newline>''
     @ ''Task: '' @ task s @ ''\<newline>''
     @ ''\<newline>''
     @ ''Provide a clear, structured plan with specific steps. Be brief but thorough.\<newline>''
     @ ''Return your response as a JSON object with the following structure:\<newline>''
     @ ''{\<newline>''
     @ ''    "plan": "your detailed plan here",\<newline>''
     @ ''    "steps": ["step 1", "step 2", "step 3"]\<newline>''
     @ ''}\<newline>''\<close>

text \<open>
  The inner \<^verbatim>\<open>try: proposal = json.loads(output)\<close> with its bare \<^verbatim>\<open>except:\<close> (lines 74 to
  80): the parsed value as it is, or the fallback dict around the text.
\<close>

definition coerce_proposal :: "extern \<Rightarrow> string \<Rightarrow> pyval" where
  "coerce_proposal ext output =
     (case loads ext output of
        Some v \<Rightarrow> v
      | None \<Rightarrow> PDict [(''plan'', PStr output), (''steps'', PList [])])"

text \<open>
  The body of the outer \<^verbatim>\<open>try\<close> of \<^verbatim>\<open>planner_node\<close> (lines 70 to 83).  The \<^verbatim>\<open>print\<close> evaluates
  \<^verbatim>\<open>len(proposal.get('steps', []))\<close>, which raises when the proposal is no dict or its
  steps have no length.
\<close>

definition planner_try :: "extern \<Rightarrow> nat \<Rightarrow> string \<Rightarrow> string \<Rightarrow> exn + update" where
  "planner_try ext k model prompt =
     (case generate ext k model prompt of
        Inl e \<Rightarrow> Inl e
      | Inr response \<Rightarrow>
          let output = strip response;
              proposal = coerce_proposal ext output
          in (case proposal of
                PDict d \<Rightarrow>
                  (case py_len (dict_get d ''steps'' (PList [])) of
                     Inl e \<Rightarrow> Inl e
                   | Inr n \<Rightarrow> Inr (Upd_planner_proposal d))
              | _ \<Rightarrow> Inl (no_get proposal)))"

definition planner_node :: "extern \<Rightarrow> nat \<Rightarrow> AgentState \<Rightarrow> exn + update" where
  "planner_node ext k s =
     (let prompt = planner_prompt s
      in case planner_try ext k (llm s) prompt of
           Inr u \<Rightarrow> Inr u
         | Inl e \<Rightarrow>
             Inr (Upd_planner_proposal
                    [(''plan'', PStr (''Error: '' @ str_exn e)), (''steps'', PList [])]))"

text \<open>
  The prompt of \<^verbatim>\<open>reviewer_node\<close> (lines 98 to 116), around the text \<open>plan_json\<close> that
  \<^verbatim>\<open>json.dumps(plan, indent=2)\<close> gave.
\<close>

definition reviewer_prompt :: "string \<Rightarrow> bool \<Rightarrow> string" where
  \<open>reviewer_prompt plan_json strict_mode =
     ''You are a Reviewer Agent. Review this plan and provide constructive feedback:\<newline>''
     @ ''\<newline>''
     @ ''PLAN:\<newline>''
     @ plan_json @ ''\<newline>''
     @ ''\<newline>''
     @ ''Provide:\<newline>''
     @ ''1. What's good\<newline>''
     @ ''2. What could be improved\<newline>''
     @ ''3. Whether there are any issues that need fixing\<newline>''
     @ ''\<newline>''
     @ ''Return your response as a JSON object:\<newline>''
     @ ''{\<newline>''
     @ ''    "feedback": "your detailed feedback here",\<newline>''
     @ ''    "has_issues": true/false,\<newline>''
     @ ''    "suggestions": ["suggestion 1", "suggestion 2"]\<newline>''
     @ ''}\<newline>''
     @ ''\<newline>''
     @ ''Be '' @ (if strict_mode then ''very strict and critical'' else ''balanced and constructive'')
     @ ''.\<newline>''\<close>

definition coerce_feedback :: "extern \<Rightarrow> string \<Rightarrow> pyval" where
  "coerce_feedback ext output =
     (case loads ext output of
        Some v \<Rightarrow> v
      | None \<Rightarrow>
          PDict [(''feedback'', PStr output), (''has_issues'', PBool False), (''suggestions'', PList [])])"

text \<open>
  The body of the \<^verbatim>\<open>try\<close> of \<^verbatim>\<open>reviewer_node\<close> (lines 119 to 134); its \<^verbatim>\<open>print\<close> evaluates
  \<^verbatim>\<open>feedback.get('has_issues', False)\<close>, which raises when the feedback is no dict, and
  formats the value found.
\<close>

definition reviewer_try :: "extern \<Rightarrow> nat \<Rightarrow> string \<Rightarrow> string \<Rightarrow> exn + update" where
  "reviewer_try ext k model prompt =
     (case generate ext k model prompt of
        Inl e \<Rightarrow> Inl e
      | Inr response \<Rightarrow>
          let output = strip response;
              feedback = coerce_feedback ext output
          in (case feedback of
                PDict d \<Rightarrow>
                  (case py_format ext (dict_get d ''has_issues'' (PBool False)) of
                     Some e \<Rightarrow> Inl e
                   | None \<Rightarrow> Inr (Upd_reviewer_feedback d))
              | _ \<Rightarrow> Inl (no_get feedback)))"

text \<open>
  \<^verbatim>\<open>state["planner_proposal"]\<close> is read and the prompt is built (lines 94 to 116) before the
  \<^verbatim>\<open>try\<close> of line 118: a missing key is a KeyError that leaves the node, and so does
  whatever \<^verbatim>\<open>json.dumps\<close> raises.
\<close>

definition reviewer_node :: "extern \<Rightarrow> nat \<Rightarrow> AgentState \<Rightarrow> exn + update" where
  "reviewer_node ext k s =
     (case planner_proposal s of
        None \<Rightarrow> Inl (KeyError ''planner_proposal'')
      | Some plan \<Rightarrow>
          let strict_mode = (case strict s of Some b \<Rightarrow> b | None \<Rightarrow> False)
          in (case dumps ext (PDict plan) 2 of
                Inl e \<Rightarrow> Inl e
              | Inr plan_json \<Rightarrow>
                  let prompt = reviewer_prompt plan_json strict_mode
                  in (case reviewer_try ext k (llm s) prompt of
                        Inr u \<Rightarrow> Inr u
                      | Inl e \<Rightarrow>
                          Inr (Upd_reviewer_feedback
                                 [(''feedback'', PStr (''Error: '' @ str_exn e)),
                                  (''has_issues'', PBool False),
                                  (''suggestions'', PList [])]))))"

section \<open>The graph\<close>

text \<open>
  \<^verbatim>\<open>build_graph\<close> registers three nodes, makes the supervisor the entry point, hangs the
  router with its path map on the supervisor and adds an edge from each agent back to
  the supervisor.
\<close>

record StateGraph =
  nodes :: "(string \<times> (extern \<Rightarrow> nat \<Rightarrow> AgentState \<Rightarrow> exn + update)) list"
  entry_point :: string
  conditional_edges :: "(string \<times> (AgentState \<Rightarrow> string) \<times> (string \<times> string) list) list"
  edges :: "(string \<times> string) list"

definition build_graph :: StateGraph where
  "build_graph =
     \<lparr>nodes =
        [(''supervisor'', \<lambda>ext k s. Inr (supervisor_node s)),
         (''planner'', planner_node),
         (''reviewer'', reviewer_node)],
      entry_point = ''supervisor'',
      conditional_edges =
        [(''supervisor'', router_logic,
          [(''planner'', ''planner''), (''reviewer'', ''reviewer''), (END, END)])],
      edges = [(''planner'', ''supervisor''), (''reviewer'', ''supervisor'')]\<rparr>"

text \<open>
  How the compiled graph runs: it executes the current node, overwrites the state with
  the node's update, and moves on, along the conditional edge of the node (the router is
  asked on the updated state) or else along its plain edge.  The step number \<open>k\<close> is
  handed to the node for its call of the service.
\<close>

definition next_node :: "StateGraph \<Rightarrow> string \<Rightarrow> AgentState \<Rightarrow> exn + string" where
  "next_node g name s =
     (case map_of (conditional_edges g) name of
        Some (router, path_map) \<Rightarrow>
          (case map_of path_map (router s) of
             Some target \<Rightarrow> Inr target
           | None \<Rightarrow> Inl (GraphError (router s)))
      | None \<Rightarrow>
          (case map_of (edges g) name of
             Some target \<Rightarrow> Inr target
           | None \<Rightarrow> Inl (GraphError name)))"

definition graph_step ::
  "StateGraph \<Rightarrow> extern \<Rightarrow> nat \<Rightarrow> string \<Rightarrow> AgentState \<Rightarrow> exn + (update \<times> string \<times> AgentState)" where
  "graph_step g ext k name s =
     (case map_of (nodes g) name of
        None \<Rightarrow> Inl (GraphError name)
      | Some node \<Rightarrow>
          (case node ext k s of
             Inl e \<Rightarrow> Inl e
           | Inr u \<Rightarrow>
               let s' = merge s u
               in (case next_node g name s' of
                     Inl e \<Rightarrow> Inl e
                   | Inr target \<Rightarrow> Inr (u, target, s'))))"

text \<open>
  A run is cut off after \<open>fuel\<close> steps.  \<open>stream\<close> gives one entry per executed step (the
  node, its update, the node chosen next) and how the run stands: ended at \<^verbatim>\<open>END\<close> with
  the final state, left by an exception of a node, or not yet finished.  The library has
  such a cut of its own, the recursion limit of the run (25 steps unless configured), at
  which it gives up with a \<^verbatim>\<open>GraphRecursionError\<close>: a run that is \<open>Unfinished\<close> at that
  fuel is one the library aborts, not one that goes on for ever.
\<close>

datatype run_end = Ended AgentState | Failed exn | Unfinished string AgentState

fun stream ::
  "StateGraph \<Rightarrow> extern \<Rightarrow> nat \<Rightarrow> nat \<Rightarrow> string \<Rightarrow> AgentState
     \<Rightarrow> (string \<times> update \<times> string) list \<times> run_end" where
  "stream g ext 0 k name s = ([], if name = END then Ended s else Unfinished name s)"
| "stream g ext (Suc fuel) k name s =
     (if name = END then ([], Ended s)
      else case graph_step g ext k name s of
             Inl e \<Rightarrow> ([], Failed e)
           | Inr (u, target, s') \<Rightarrow>
               (case stream g ext fuel (Suc k) target s' of
                  (steps, r) \<Rightarrow> ((name, u, target) # steps, r)))"

definition run_graph ::
  "StateGraph \<Rightarrow> extern \<Rightarrow> nat \<Rightarrow> AgentState \<Rightarrow> (string \<times> update \<times> string) list \<times> run_end" where
  "run_graph g ext fuel s = stream g ext fuel 0 (entry_point g) s"

text \<open>
  \<^verbatim>\<open>graph.invoke\<close>: the final state, \<open>None\<close> when the run has not reached \<^verbatim>\<open>END\<close> within the
  fuel.
\<close>

definition invoke :: "StateGraph \<Rightarrow> extern \<Rightarrow> nat \<Rightarrow> AgentState \<Rightarrow> (exn + AgentState) option" where
  "invoke g ext fuel s =
     (case snd (run_graph g ext fuel s) of
        Ended s' \<Rightarrow> Some (Inr s')
      | Failed e \<Rightarrow> Some (Inl e)
      | Unfinished name s' \<Rightarrow> None)"

text \<open>The state \<^verbatim>\<open>main\<close> starts from, for the task and the strict flag the user typed.\<close>

definition initial_state :: "string \<Rightarrow> bool \<Rightarrow> AgentState" where
  "initial_state task_text strict_flag =
     \<lparr>title = Some ''LangGraph Agent Task'',
      content = Some task_text,
      email = Some ''user@example.com'',
      strict = Some strict_flag,
      task = task_text,
      llm = ''smollm:1.7b'',
      planner_proposal = Some [],
      reviewer_feedback = Some [],
      turn_count = Some 0\<rparr>"

text \<open>What a run shows: the nodes executed, the router's decisions, the supervisor visits.\<close>

definition step_names :: "(string \<times> update \<times> string) list \<Rightarrow> string list" where
  "step_names steps = map fst steps"

definition router_decisions :: "(string \<times> update \<times> string) list \<Rightarrow> string list" where
  "router_decisions steps = map (\<lambda>(name, u, target). target) (filter (\<lambda>(name, u, target). name = ''supervisor'') steps)"

definition supervisor_visits :: "(string \<times> update \<times> string) list \<Rightarrow> nat" where
  "supervisor_visits steps = length (filter (\<lambda>name. name = ''supervisor'') (step_names steps))"

text \<open>The final state of a run that has ended, and the counter in it.\<close>

fun final_turn_count :: "run_end \<Rightarrow> int option" where
  "final_turn_count (Ended s) = Some (turnCount s)"
| "final_turn_count (Failed e) = None"
| "final_turn_count (Unfinished name s) = None"

text \<open>The counter values the steps of a run write, in order.\<close>

fun turn_updates :: "(string \<times> update \<times> string) list \<Rightarrow> int list" where
  "turn_updates [] = []"
| "turn_updates ((name, Upd_turn_count n, target) # steps) = n # turn_updates steps"
| "turn_updates ((name, u, target) # steps) = turn_updates steps"

text \<open>The state a run has reached, when no exception has left it.\<close>

fun state_of :: "run_end \<Rightarrow> AgentState option" where
  "state_of (Ended s) = Some s"
| "state_of (Failed e) = None"
| "state_of (Unfinished name s) = Some s"

text \<open>
  The service answers alike whichever tone the reviewer's prompt asks for: the condition
  under which two runs that differ in \<^verbatim>\<open>strict\<close> get the same responses.
\<close>

definition tone_blind :: "extern \<Rightarrow> bool" where
  "tone_blind ext =
     (\<forall>k model plan plan_json.
        dumps ext (PDict plan) 2 = Inr plan_json \<longrightarrow>
        generate ext k model (reviewer_prompt plan_json True)
          = generate ext k model (reviewer_prompt plan_json False))"

fun with_strict :: "bool option \<Rightarrow> run_end \<Rightarrow> run_end" where
  "with_strict b (Ended s) = Ended (s\<lparr>strict := b\<rparr>)"
| "with_strict b (Failed e) = Failed e"
| "with_strict b (Unfinished name s) = Unfinished name (s\<lparr>strict := b\<rparr>)"

section \<open>Sample services\<close>

text \<open>
  Concrete surroundings for the examples.  \<open>sample_loads\<close> is \<^verbatim>\<open>json.loads\<close> on the JSON texts
  the examples answer with; the other answer used, \<^verbatim>\<open>Step one.\<close>, is no JSON and makes
  \<^verbatim>\<open>json.loads\<close> raise.  \<open>sample_dumps\<close> is \<^verbatim>\<open>json.dumps\<close> with \<^verbatim>\<open>indent=2\<close> on the two dicts
  the examples serialise and on the empty dict; the examples apply it to nothing else.
  None of these values is a list or a dict that formatting could fail on.
  \<open>sample_extern answers\<close> answers the call at step \<open>k\<close> with \<open>answers k\<close>, whatever the
  prompt.
\<close>

definition sample_loads :: "string \<Rightarrow> pyval option" where
  \<open>sample_loads text =
     (if text = ''{}'' then Some (PDict [])
      else if text = ''{"has_issues": true}'' then Some (PDict [(''has_issues'', PBool True)])
      else if text = ''{"steps": 5}'' then Some (PDict [(''steps'', PInt 5)])
      else if text = ''[]'' then Some (PList [])
      else None)\<close>

definition sample_dumps :: "pyval \<Rightarrow> nat \<Rightarrow> exn + string" where
  \<open>sample_dumps v indent =
     (if v = PDict [(''plan'', PStr ''Step one.''), (''steps'', PList [])]
      then Inr ''{\<newline>  "plan": "Step one.",\<newline>  "steps": []\<newline>}''
      else if v = PDict [(''has_issues'', PBool True)]
      then Inr ''{\<newline>  "has_issues": true\<newline>}''
      else Inr ''{}'')\<close>

definition sample_extern :: "(nat \<Rightarrow> exn + string) \<Rightarrow> extern" where
  "sample_extern answers =
     \<lparr>generate = (\<lambda>k model prompt. answers k), loads = sample_loads, dumps = sample_dumps,
      format_value = (\<lambda>v. None)\<rparr>"

text \<open>A service whose every answer is the empty JSON object.\<close>

definition always_empty :: extern where
  \<open>always_empty = sample_extern (\<lambda>k. Inr ''{}'')\<close>

text \<open>A planner that answers in prose and a reviewer (called at step 3) that reports issues.\<close>

definition issues_answers :: "nat \<Rightarrow> exn + string" where
  \<open>issues_answers k = (if k = 3 then Inr ''{"has_issues": true}'' else Inr ''Step one.'')\<close>

section \<open>The planner of the correction-loop script\<close>

text \<open>
  \<^verbatim>\<open>test_correction_loop.py\<close> has its own \<^verbatim>\<open>planner_node\<close>.  Its prompt (lines 49 to 84) is
  the revision prompt when there is feedback and the counter is above 1, and the
  first-draft prompt otherwise.  The revision prompt holds \<^verbatim>\<open>json.dumps\<close> of the feedback, so
  building it raises when \<^verbatim>\<open>json.dumps\<close> does.
\<close>

definition revision_prompt :: "string \<Rightarrow> string \<Rightarrow> string" where
  \<open>revision_prompt feedback_json task_text =
     ''You are a Planner Agent. The reviewer found issues with your previous plan.\<newline>''
     @ ''\<newline>''
     @ ''Previous Feedback:\<newline>''
     @ feedback_json @ ''\<newline>''
     @ ''\<newline>''
     @ ''Original Task: '' @ task_text @ ''\<newline>''
     @ ''\<newline>''
     @ ''Create an IMPROVED plan addressing the reviewer's concerns.\<newline>''
     @ ''Return your response as a JSON object:\<newline>''
     @ ''{\<newline>''
     @ ''    "plan": "your improved detailed plan here",\<newline>''
     @ ''    "steps": ["step 1", "step 2", "step 3"]\<newline>''
     @ ''}\<newline>''\<close>

definition first_draft_prompt :: "string \<Rightarrow> string" where
  \<open>first_draft_prompt task_text =
     ''You are a Planner Agent. Create a concise, step-by-step plan for this task:\<newline>''
     @ ''\<newline>''
     @ ''Task: '' @ task_text @ ''\<newline>''
     @ ''\<newline>''
     @ ''Provide a clear, structured plan with specific steps. Be brief but thorough.\<newline>''
     @ ''Return your response as a JSON object:\<newline>''
     @ ''{\<newline>''
     @ ''    "plan": "your detailed plan here",\<newline>''
     @ ''    "steps": ["step 1", "step 2", "step 3"]\<newline>''
     @ ''}\<newline>''\<close>

definition planner_prompt_correction_loop :: "extern \<Rightarrow> AgentState \<Rightarrow> exn + string" where
  "planner_prompt_correction_loop ext s =
     (let turns = (case turn_count s of Some n \<Rightarrow> n | None \<Rightarrow> 0);
          previous_feedback = (case reviewer_feedback s of Some d \<Rightarrow> d | None \<Rightarrow> [])
      in if truthy (PDict previous_feedback) \<and> turns > 1
         then (case dumps ext (PDict previous_feedback) 2 of
                 Inl e \<Rightarrow> Inl e
               | Inr feedback_json \<Rightarrow> Inr (revision_prompt feedback_json (task s)))
         else Inr (first_draft_prompt (task s)))"

section \<open>Shapes the specification expects\<close>



text \<open>No answer of the service parses to the empty JSON object.\<close>

definition nonempty_answers :: "extern \<Rightarrow> bool" where
  "nonempty_answers ext =
     (\<forall>k model prompt text.
        generate ext k model prompt = Inr text \<longrightarrow> loads ext (strip text) \<noteq> Some (PDict []))"

section \<open>More sample services\<close>

text \<open>A service that is down, one that always answers in prose, and one whose reviewer
  (called at step 3) answers with the empty JSON object.\<close>

definition failing :: extern where
  "failing = sample_extern (\<lambda>k. Inl (ClientError ''connection refused''))"

definition prose_answers :: "nat \<Rightarrow> exn + string" where
  "prose_answers k = Inr ''Step one.''"

definition empty_review_answers :: "nat \<Rightarrow> exn + string" where
  \<open>empty_review_answers k = (if k = 3 then Inr ''{}'' else Inr ''Step one.'')\<close>

text \<open>
  A sample interpreter with a recursion limit: \<open>nest n\<close> is \<open>n + 1\<close> lists inside each
  other, \<open>deep_text key\<close> is the JSON object with 1000 nested lists under \<open>key\<close>.  Its
  \<^verbatim>\<open>json.loads\<close> still accepts that text, while its \<^verbatim>\<open>json.dumps\<close> and its formatting give up
  on the value, as \<^verbatim>\<open>json.dumps\<close> of CPython 3.12 does (the message varies).
\<close>

fun nest :: "nat \<Rightarrow> pyval" where
  "nest 0 = PList []"
| "nest (Suc n) = PList [nest n]"

definition deep_text :: "string \<Rightarrow> string" where
  \<open>deep_text key =
     ''{"'' @ key @ ''": '' @ replicate 1000 (CHR ''['') @ replicate 1000 (CHR '']'') @ ''}''\<close>

definition deep_loads :: "string \<Rightarrow> pyval option" where
  "deep_loads text =
     (if text = deep_text ''steps'' then Some (PDict [(''steps'', nest 999)])
      else if text = deep_text ''has_issues'' then Some (PDict [(''has_issues'', nest 999)])
      else sample_loads text)"

definition deep_dumps :: "pyval \<Rightarrow> nat \<Rightarrow> exn + string" where
  "deep_dumps v indent =
     (if v = PDict [(''steps'', nest 999)]
      then Inl (RecursionError ''maximum recursion depth exceeded'')
      else sample_dumps v indent)"

definition deep_format :: "pyval \<Rightarrow> exn option" where
  "deep_format v =
     (if v = nest 999 then Some (RecursionError ''maximum recursion depth exceeded'') else None)"

definition deep_extern :: "(nat \<Rightarrow> exn + string) \<Rightarrow> extern" where
  "deep_extern answers =
     \<lparr>generate = (\<lambda>k model prompt. answers k), loads = deep_loads, dumps = deep_dumps,
      format_value = deep_format\<rparr>"

text \<open>Every call of \<^verbatim>\<open>json.dumps\<close> gives a text.\<close>

definition dumps_total :: "extern \<Rightarrow> bool" where
  "dumps_total ext = (\<forall>v indent. \<exists>text. dumps ext v indent = Inr text)"

section \<open>Properties of the router\<close>

lemma truthy_state_get: "truthy (state_get v) = (\<not> absent v)"
  by (cases v) (simp_all add: state_get_def absent_def)

lemma router_logic_cases:
  "router_logic s =
     (if absent (planner_proposal s) then ''planner''
      else if absent (reviewer_feedback s) then ''reviewer''
      else if \<not> hasIssues s then END
      else if turnCount s \<ge> 5 then END else ''planner'')"
  by (cases "reviewer_feedback s")
     (auto simp add: router_logic_def truthy_state_get hasIssues_def turnCount_def
        dict_get_def Let_def absent_def split: option.splits)

text \<open>
  C1.  The router returns one of \<^verbatim>\<open>"planner"\<close>, \<^verbatim>\<open>"reviewer"\<close> and \<^verbatim>\<open>END\<close> for every state,
  by the four rules in their order: no proposal gives the planner; else no feedback gives
  the reviewer; else no issues gives \<^verbatim>\<open>END\<close>; else \<^verbatim>\<open>END\<close> from turn 5 on and the planner
  before.  The first two rules do not look at the turn counter: whatever it is set to, a
  state without proposal goes to the planner and a state with a proposal and without
  feedback goes to the reviewer.
\<close>

theorem router_logic_total_ordered:
  "router_logic s \<in> {''planner'', ''reviewer'', END}
   \<and> router_logic s =
       (if absent (planner_proposal s) then ''planner''
        else if absent (reviewer_feedback s) then ''reviewer''
        else if \<not> hasIssues s then END
        else if turnCount s \<ge> 5 then END else ''planner'')
   \<and> (absent (planner_proposal s) \<longrightarrow> router_logic (s\<lparr>turn_count := t\<rparr>) = ''planner'')
   \<and> (\<not> absent (planner_proposal s) \<and> absent (reviewer_feedback s)
        \<longrightarrow> router_logic (s\<lparr>turn_count := t\<rparr>) = ''reviewer'')"
  by (simp add: router_logic_cases)

theorem router_logic_total_ordered_witness:
  "absent (planner_proposal (initial_state ''X'' False))
   \<and> router_logic ((initial_state ''X'' False)\<lparr>turn_count := Some 9\<rparr>) = ''planner''
   \<and> \<not> absent (planner_proposal
          ((initial_state ''X'' False)\<lparr>planner_proposal := Some [(''plan'', PStr ''Step one.'')]\<rparr>))
   \<and> absent (reviewer_feedback
          ((initial_state ''X'' False)\<lparr>planner_proposal := Some [(''plan'', PStr ''Step one.'')]\<rparr>))
   \<and> router_logic
         ((initial_state ''X'' False)
            \<lparr>planner_proposal := Some [(''plan'', PStr ''Step one.'')], turn_count := Some 9\<rparr>)
       = ''reviewer''"
  using router_logic_total_ordered [of "initial_state ''X'' False" "Some 9"]
    router_logic_total_ordered
      [of "(initial_state ''X'' False)\<lparr>planner_proposal := Some [(''plan'', PStr ''Step one.'')]\<rparr>"
          "Some 9"]
  by (simp add: initial_state_def absent_def)

lemma router_logic_range: "router_logic s \<in> {''planner'', ''reviewer'', END}"
  by (simp add: router_logic_cases)

lemma router_never_reviews_again:
  "\<not> absent (reviewer_feedback s) \<Longrightarrow> router_logic s \<noteq> ''reviewer''"
  by (simp add: router_logic_cases END_def)

section \<open>Single steps of the graph\<close>

lemma merge_supervisor: "merge s (supervisor_node s) = s\<lparr>turn_count := Some (turnCount s + 1)\<rparr>"
  by (simp add: supervisor_node_def turnCount_def Let_def split: option.splits)

lemma planner_node_Inr: "\<exists>d. planner_node ext k s = Inr (Upd_planner_proposal d)"
  by (auto simp add: planner_node_def planner_try_def Let_def split: sum.splits pyval.splits)


lemma step_supervisor:
  "graph_step build_graph ext k ''supervisor'' s =
     Inr (Upd_turn_count (turnCount s + 1),
          router_logic (s\<lparr>turn_count := Some (turnCount s + 1)\<rparr>),
          s\<lparr>turn_count := Some (turnCount s + 1)\<rparr>)"
proof -
  have "map_of [(''planner'', ''planner''), (''reviewer'', ''reviewer''), (END, END)] (router_logic t)
          = Some (router_logic t)" for t
    using router_logic_range [of t] by (auto simp add: END_def)
  then show ?thesis
    by (simp add: graph_step_def build_graph_def next_node_def supervisor_node_def
          turnCount_def Let_def split: option.splits)
qed

lemma step_planner:
  "planner_node ext k s = Inr u \<Longrightarrow>
   graph_step build_graph ext k ''planner'' s = Inr (u, ''supervisor'', merge s u)"
  by (simp add: graph_step_def build_graph_def next_node_def Let_def)

lemma step_reviewer:
  "reviewer_node ext k s = Inr u \<Longrightarrow>
   graph_step build_graph ext k ''reviewer'' s = Inr (u, ''supervisor'', merge s u)"
  by (simp add: graph_step_def build_graph_def next_node_def Let_def)

lemma step_reviewer_fail:
  "reviewer_node ext k s = Inl e \<Longrightarrow>
   graph_step build_graph ext k ''reviewer'' s = Inl e"
  by (simp add: graph_step_def build_graph_def next_node_def Let_def)










lemma graph_step_build_graph:
  assumes "graph_step build_graph ext k name s = Inr (u, target, s')"
  shows "s' = merge s u \<and>
         (name = ''supervisor'' \<and> u = Upd_turn_count (turnCount s + 1) \<and> target = router_logic s'
          \<or> name = ''planner'' \<and> target = ''supervisor'' \<and> (\<exists>d. u = Upd_planner_proposal d)
          \<or> name = ''reviewer'' \<and> target = ''supervisor'' \<and> (\<exists>d. u = Upd_reviewer_feedback d))"
proof -
  consider "name = ''supervisor''" | "name = ''planner''" | "name = ''reviewer''"
    | "name \<notin> {''supervisor'', ''planner'', ''reviewer''}"
    by auto
  then show ?thesis
  proof cases
    case 1
    with assms show ?thesis by (auto simp add: step_supervisor)
  next
    case 2
    obtain d where d: "planner_node ext k s = Inr (Upd_planner_proposal d)"
      using planner_node_Inr by blast
    with 2 assms show ?thesis by (auto simp add: step_planner [OF d])
  next
    case 3
    show ?thesis
    proof (cases "reviewer_node ext k s")
      case (Inl e)
      with 3 assms show ?thesis by (simp add: step_reviewer_fail)
    next
      case (Inr u')
      have "\<exists>d. u' = Upd_reviewer_feedback d"
        using Inr by (auto simp add: reviewer_node_def reviewer_try_def Let_def
            split: option.splits sum.splits pyval.splits)
      with 3 assms Inr show ?thesis by (auto simp add: step_reviewer [OF Inr])
    qed
  next
    case 4
    with assms show ?thesis by (simp add: graph_step_def build_graph_def)
  qed
qed

lemma stream_END: "stream g ext fuel k END s = ([], Ended s)"
  by (cases fuel) simp_all

lemma stream_step:
  "name \<noteq> END \<Longrightarrow> graph_step build_graph ext k name s = Inr (u, target, s') \<Longrightarrow>
   stream build_graph ext fuel k' target s' = (steps, r) \<Longrightarrow> k' = Suc k \<Longrightarrow>
   stream build_graph ext (Suc fuel) k name s = ((name, u, target) # steps, r)"
  by simp

section \<open>Empty records\<close>

lemma strip_braces: \<open>strip ''{}'' = ''{}''\<close>
  by (simp add: strip_def py_isspace_def)

lemma planner_node_always_empty:
  "planner_node always_empty k s = Inr (Upd_planner_proposal [])"
  by (simp add: planner_node_def planner_try_def always_empty_def sample_extern_def
        strip_braces coerce_proposal_def sample_loads_def dict_get_def Let_def)

text \<open>
  C10.  The router tells absence by emptiness: a proposal key that holds the empty dict is
  treated like a missing one, so the state \<^verbatim>\<open>main\<close> starts from goes to the planner, and so
  does every state in which the planner has just stored an answer that parsed to \<^verbatim>\<open>{}\<close>,
  although a planner run has completed.  The feedback key is read the same way.
\<close>

theorem empty_proposal_is_absent:
  "router_logic (s\<lparr>planner_proposal := Some []\<rparr>) = ''planner''
   \<and> router_logic (s\<lparr>planner_proposal := None\<rparr>) = ''planner''
   \<and> router_logic (initial_state task_text strict_flag) = ''planner''
   \<and> (generate ext k (llm s) (planner_prompt s) = Inr text \<and> loads ext (strip text) = Some (PDict []) \<longrightarrow>
        planner_node ext k s = Inr (Upd_planner_proposal [])
        \<and> router_logic (merge s (Upd_planner_proposal [])) = ''planner'')
   \<and> (\<not> absent (planner_proposal s) \<longrightarrow>
        router_logic (s\<lparr>reviewer_feedback := Some []\<rparr>) = ''reviewer''
        \<and> router_logic (s\<lparr>reviewer_feedback := None\<rparr>) = ''reviewer'')"
  by (simp add: router_logic_cases absent_def initial_state_def planner_node_def planner_try_def
        coerce_proposal_def dict_get_def Let_def)

theorem empty_proposal_is_absent_witness:
  \<open>generate always_empty 1 (llm (initial_state ''X'' False)) (planner_prompt (initial_state ''X'' False))
     = Inr ''{}''
   \<and> loads always_empty (strip ''{}'') = Some (PDict [])
   \<and> planner_node always_empty 1 (initial_state ''X'' False) = Inr (Upd_planner_proposal [])
   \<and> router_logic (merge (initial_state ''X'' False) (Upd_planner_proposal [])) = ''planner''
   \<and> \<not> absent (planner_proposal ((initial_state ''X'' False)\<lparr>planner_proposal := Some [(''plan'', PStr ''Step one.'')]\<rparr>))
   \<and> router_logic ((initial_state ''X'' False)\<lparr>planner_proposal := Some [(''plan'', PStr ''Step one.'')],
                      reviewer_feedback := Some []\<rparr>) = ''reviewer''\<close>
proof -
  have g: \<open>generate always_empty 1 (llm (initial_state ''X'' False)) (planner_prompt (initial_state ''X'' False))
     = Inr ''{}''\<close>
    by (simp add: always_empty_def sample_extern_def)
  have l: \<open>loads always_empty (strip ''{}'') = Some (PDict [])\<close>
    by (simp add: always_empty_def sample_extern_def sample_loads_def strip_braces)
  have a: \<open>\<not> absent (planner_proposal ((initial_state ''X'' False)\<lparr>planner_proposal := Some [(''plan'', PStr ''Step one.'')]\<rparr>))\<close>
    by (simp add: absent_def)
  show ?thesis
    using empty_proposal_is_absent [of "initial_state ''X'' False" "''X''" False always_empty 1 "''{}''"]
      empty_proposal_is_absent [of "(initial_state ''X'' False)\<lparr>planner_proposal := Some [(''plan'', PStr ''Step one.'')]\<rparr>" "''X''" False always_empty 1 "''{}''"]
      g l a
    by simp
qed

section \<open>Coercion of the answers\<close>







section \<open>Failure of the service\<close>

text \<open>
  C5.  When the service raises during the planner step, the step returns the proposal whose
  plan is \<^verbatim>\<open>Error: \<close> followed by the failure text, with empty steps; when it raises during
  the reviewer step, the step returns the feedback with that text, \<^verbatim>\<open>has_issues\<close> false and
  empty suggestions.  In both cases the graph merges the record and goes on to the
  supervisor.
\<close>

theorem client_failure_absorbed:
  "(generate ext k (llm s) (planner_prompt s) = Inl e \<longrightarrow>
      planner_node ext k s
        = Inr (Upd_planner_proposal [(''plan'', PStr (''Error: '' @ str_exn e)), (''steps'', PList [])])
      \<and> graph_step build_graph ext k ''planner'' s
        = Inr (Upd_planner_proposal [(''plan'', PStr (''Error: '' @ str_exn e)), (''steps'', PList [])],
               ''supervisor'',
               s\<lparr>planner_proposal := Some [(''plan'', PStr (''Error: '' @ str_exn e)), (''steps'', PList [])]\<rparr>))
   \<and> (planner_proposal s = Some plan \<and> dumps ext (PDict plan) 2 = Inr plan_json
       \<and> generate ext k (llm s)
            (reviewer_prompt plan_json (case strict s of Some b \<Rightarrow> b | None \<Rightarrow> False)) = Inl e \<longrightarrow>
      reviewer_node ext k s
        = Inr (Upd_reviewer_feedback
                 [(''feedback'', PStr (''Error: '' @ str_exn e)),
                  (''has_issues'', PBool False),
                  (''suggestions'', PList [])])
      \<and> graph_step build_graph ext k ''reviewer'' s
        = Inr (Upd_reviewer_feedback
                 [(''feedback'', PStr (''Error: '' @ str_exn e)),
                  (''has_issues'', PBool False),
                  (''suggestions'', PList [])],
               ''supervisor'',
               s\<lparr>reviewer_feedback :=
                    Some [(''feedback'', PStr (''Error: '' @ str_exn e)),
                          (''has_issues'', PBool False),
                          (''suggestions'', PList [])]\<rparr>))"
proof (intro conjI impI)
  assume g: "generate ext k (llm s) (planner_prompt s) = Inl e"
  then show p: "planner_node ext k s
        = Inr (Upd_planner_proposal [(''plan'', PStr (''Error: '' @ str_exn e)), (''steps'', PList [])])"
    by (simp add: planner_node_def planner_try_def)
  show "graph_step build_graph ext k ''planner'' s
        = Inr (Upd_planner_proposal [(''plan'', PStr (''Error: '' @ str_exn e)), (''steps'', PList [])],
               ''supervisor'',
               s\<lparr>planner_proposal := Some [(''plan'', PStr (''Error: '' @ str_exn e)), (''steps'', PList [])]\<rparr>)"
    by (simp add: step_planner [OF p])
next
  assume a: "planner_proposal s = Some plan \<and> dumps ext (PDict plan) 2 = Inr plan_json
       \<and> generate ext k (llm s)
            (reviewer_prompt plan_json (case strict s of Some b \<Rightarrow> b | None \<Rightarrow> False)) = Inl e"
  then show r: "reviewer_node ext k s
        = Inr (Upd_reviewer_feedback
                 [(''feedback'', PStr (''Error: '' @ str_exn e)),
                  (''has_issues'', PBool False),
                  (''suggestions'', PList [])])"
    by (simp add: reviewer_node_def reviewer_try_def)
  show "graph_step build_graph ext k ''reviewer'' s
        = Inr (Upd_reviewer_feedback
                 [(''feedback'', PStr (''Error: '' @ str_exn e)),
                  (''has_issues'', PBool False),
                  (''suggestions'', PList [])],
               ''supervisor'',
               s\<lparr>reviewer_feedback :=
                    Some [(''feedback'', PStr (''Error: '' @ str_exn e)),
                          (''has_issues'', PBool False),
                          (''suggestions'', PList [])]\<rparr>)"
    by (simp add: step_reviewer [OF r])
qed

theorem client_failure_absorbed_witness:
  \<open>generate failing 1 (llm (initial_state ''X'' False)) (planner_prompt (initial_state ''X'' False))
     = Inl (ClientError ''connection refused'')
   \<and> planner_node failing 1 (initial_state ''X'' False)
     = Inr (Upd_planner_proposal [(''plan'', PStr ''Error: connection refused''), (''steps'', PList [])])
   \<and> planner_proposal ((initial_state ''X'' False)\<lparr>planner_proposal := Some [(''plan'', PStr ''Step one.''), (''steps'', PList [])]\<rparr>)
     = Some [(''plan'', PStr ''Step one.''), (''steps'', PList [])]
   \<and> dumps failing (PDict [(''plan'', PStr ''Step one.''), (''steps'', PList [])]) 2
     = Inr ''{\<newline>  "plan": "Step one.",\<newline>  "steps": []\<newline>}''
   \<and> reviewer_node failing 3
        ((initial_state ''X'' False)\<lparr>planner_proposal := Some [(''plan'', PStr ''Step one.''), (''steps'', PList [])]\<rparr>)
     = Inr (Upd_reviewer_feedback
              [(''feedback'', PStr ''Error: connection refused''),
               (''has_issues'', PBool False),
               (''suggestions'', PList [])])\<close>
proof -
  let ?plan = "[(''plan'', PStr ''Step one.''), (''steps'', PList [])]"
  have g: "generate failing k model prompt = Inl (ClientError ''connection refused'')" for k model prompt
    by (simp add: failing_def sample_extern_def)
  have d: \<open>dumps failing (PDict ?plan) 2
            = Inr ''{\<newline>  "plan": "Step one.",\<newline>  "steps": []\<newline>}''\<close>
    by (simp add: failing_def sample_extern_def sample_dumps_def)
  show ?thesis
    using client_failure_absorbed
            [where ext = failing and k = 1 and s = "initial_state ''X'' False"
               and e = "ClientError ''connection refused''"]
      client_failure_absorbed
            [where ext = failing and k = 3
               and s = "(initial_state ''X'' False)\<lparr>planner_proposal := Some ?plan\<rparr>"
               and e = "ClientError ''connection refused''" and plan = ?plan
               and plan_json = \<open>''{\<newline>  "plan": "Step one.",\<newline>  "steps": []\<newline>}''\<close>]
      d
    by (simp add: g)
qed

section \<open>The planner prompts\<close>

text \<open>
  The claim C7 as it stands fails for \<^verbatim>\<open>planner_node\<close> of \<^verbatim>\<open>langgraph_agents.py\<close>: with
  feedback in the state its prompt is the very prompt it builds without feedback.
\<close>

theorem planner_ignores_feedback_counterexample:
  "\<not> absent (reviewer_feedback
        ((initial_state ''X'' False)
           \<lparr>reviewer_feedback := Some [(''has_issues'', PBool True)], turn_count := Some 3\<rparr>))
   \<and> absent (reviewer_feedback (initial_state ''X'' False))
   \<and> planner_prompt
        ((initial_state ''X'' False)
           \<lparr>reviewer_feedback := Some [(''has_issues'', PBool True)], turn_count := Some 3\<rparr>)
     = planner_prompt (initial_state ''X'' False)"
  by (simp add: absent_def initial_state_def planner_prompt_def)

text \<open>
  C7, amended.  The planner of \<^verbatim>\<open>langgraph_agents.py\<close> builds its prompt from the task alone,
  whether or not there is feedback.  The planner of \<^verbatim>\<open>test_correction_loop.py\<close> requests a
  revision, with the feedback and the task in the prompt, when the feedback is not empty
  and the turn counter is above 1, and requests a first draft otherwise.
\<close>

theorem planner_prompt_conditions:
  "(task s' = task s \<longrightarrow> planner_prompt s' = planner_prompt s)
   \<and> (reviewer_feedback s = Some fb \<and> fb \<noteq> [] \<and> turnCount s > 1 \<longrightarrow>
        (dumps ext (PDict fb) 2 = Inr feedback_json \<longrightarrow>
           planner_prompt_correction_loop ext s = Inr (revision_prompt feedback_json (task s)))
        \<and> (dumps ext (PDict fb) 2 = Inl e \<longrightarrow> planner_prompt_correction_loop ext s = Inl e))
   \<and> (absent (reviewer_feedback s) \<or> turnCount s \<le> 1 \<longrightarrow>
        planner_prompt_correction_loop ext s = Inr (first_draft_prompt (task s)))
   \<and> (\<exists>pre mid post. \<forall>feedback_json task_text.
         revision_prompt feedback_json task_text = pre @ feedback_json @ mid @ task_text @ post)"
proof (intro conjI impI)
  show "planner_prompt s' = planner_prompt s" if "task s' = task s"
    using that by (simp add: planner_prompt_def)
  show "planner_prompt_correction_loop ext s = Inr (revision_prompt feedback_json (task s))"
    if "reviewer_feedback s = Some fb \<and> fb \<noteq> [] \<and> turnCount s > 1"
      and "dumps ext (PDict fb) 2 = Inr feedback_json"
    using that by (simp add: planner_prompt_correction_loop_def turnCount_def Let_def)
  show "planner_prompt_correction_loop ext s = Inl e"
    if "reviewer_feedback s = Some fb \<and> fb \<noteq> [] \<and> turnCount s > 1"
      and "dumps ext (PDict fb) 2 = Inl e"
    using that by (simp add: planner_prompt_correction_loop_def turnCount_def Let_def)
  show "planner_prompt_correction_loop ext s = Inr (first_draft_prompt (task s))"
    if "absent (reviewer_feedback s) \<or> turnCount s \<le> 1"
    using that
    by (auto simp add: planner_prompt_correction_loop_def turnCount_def absent_def Let_def
          split: option.splits)
  show "\<exists>pre mid post. \<forall>feedback_json task_text.
         revision_prompt feedback_json task_text = pre @ feedback_json @ mid @ task_text @ post"
  proof (intro exI allI)
    fix feedback_json task_text
    show \<open>revision_prompt feedback_json task_text =
            (''You are a Planner Agent. The reviewer found issues with your previous plan.\<newline>''
             @ ''\<newline>'' @ ''Previous Feedback:\<newline>'')
            @ feedback_json
            @ (''\<newline>'' @ ''\<newline>'' @ ''Original Task: '')
            @ task_text
            @ (''\<newline>'' @ ''\<newline>''
               @ ''Create an IMPROVED plan addressing the reviewer's concerns.\<newline>''
               @ ''Return your response as a JSON object:\<newline>''
               @ ''{\<newline>''
               @ ''    "plan": "your improved detailed plan here",\<newline>''
               @ ''    "steps": ["step 1", "step 2", "step 3"]\<newline>''
               @ ''}\<newline>'')\<close>
      by (simp add: revision_prompt_def)
  qed
qed

theorem planner_prompt_conditions_witness:
  \<open>task ((initial_state ''X'' False)\<lparr>reviewer_feedback := Some [(''has_issues'', PBool True)]\<rparr>)
     = task (initial_state ''X'' False)
   \<and> planner_prompt ((initial_state ''X'' False)\<lparr>reviewer_feedback := Some [(''has_issues'', PBool True)]\<rparr>)
     = planner_prompt (initial_state ''X'' False)
   \<and> turnCount ((initial_state ''X'' False)
                  \<lparr>reviewer_feedback := Some [(''has_issues'', PBool True)], turn_count := Some 3\<rparr>) > 1
   \<and> dumps (sample_extern prose_answers) (PDict [(''has_issues'', PBool True)]) 2
     = Inr ''{\<newline>  "has_issues": true\<newline>}''
   \<and> planner_prompt_correction_loop (sample_extern prose_answers)
        ((initial_state ''X'' False)
           \<lparr>reviewer_feedback := Some [(''has_issues'', PBool True)], turn_count := Some 3\<rparr>)
     = Inr (revision_prompt ''{\<newline>  "has_issues": true\<newline>}'' ''X'')
   \<and> dumps (deep_extern prose_answers) (PDict [(''steps'', nest 999)]) 2
     = Inl (RecursionError ''maximum recursion depth exceeded'')
   \<and> planner_prompt_correction_loop (deep_extern prose_answers)
        ((initial_state ''X'' False)
           \<lparr>reviewer_feedback := Some [(''steps'', nest 999)], turn_count := Some 3\<rparr>)
     = Inl (RecursionError ''maximum recursion depth exceeded'')
   \<and> absent (reviewer_feedback (initial_state ''X'' False))
   \<and> planner_prompt_correction_loop (sample_extern prose_answers) (initial_state ''X'' False)
     = Inr (first_draft_prompt ''X'')\<close>
proof -
  let ?s = "initial_state ''X'' False"
  let ?fb = "[(''has_issues'', PBool True)]"
  let ?t = "?s\<lparr>reviewer_feedback := Some ?fb, turn_count := Some 3\<rparr>"
  let ?deep = "[(''steps'', nest 999)]"
  let ?u = "?s\<lparr>reviewer_feedback := Some ?deep, turn_count := Some 3\<rparr>"
  note T = planner_prompt_conditions
  have h1: "task (?s\<lparr>reviewer_feedback := Some ?fb\<rparr>) = task ?s" by simp
  have h2: "reviewer_feedback ?t = Some ?fb \<and> ?fb \<noteq> [] \<and> turnCount ?t > 1"
    by (simp add: turnCount_def)
  have h2': "reviewer_feedback ?u = Some ?deep \<and> ?deep \<noteq> [] \<and> turnCount ?u > 1"
    by (simp add: turnCount_def)
  have h3: "absent (reviewer_feedback ?s)" by (simp add: initial_state_def absent_def)
  have tk: "task ?s = ''X''" "task ?t = ''X''" by (simp_all add: initial_state_def)
  have d: \<open>dumps (sample_extern prose_answers) (PDict ?fb) 2
             = Inr ''{\<newline>  "has_issues": true\<newline>}''\<close>
    by (simp add: sample_extern_def sample_dumps_def)
  have d': "dumps (deep_extern prose_answers) (PDict ?deep) 2
             = Inl (RecursionError ''maximum recursion depth exceeded'')"
    by (simp add: deep_extern_def deep_dumps_def)
  have c1: "planner_prompt (?s\<lparr>reviewer_feedback := Some ?fb\<rparr>) = planner_prompt ?s"
    by (rule T [THEN conjunct1, rule_format, OF h1])
  have c2: \<open>planner_prompt_correction_loop (sample_extern prose_answers) ?t
              = Inr (revision_prompt ''{\<newline>  "has_issues": true\<newline>}'' (task ?t))\<close>
    by (rule T [THEN conjunct2, THEN conjunct1, rule_format, OF h2, THEN conjunct1, rule_format, OF d])
  have c3: "planner_prompt_correction_loop (deep_extern prose_answers) ?u
              = Inl (RecursionError ''maximum recursion depth exceeded'')"
    by (rule T [THEN conjunct2, THEN conjunct1, rule_format, OF h2', THEN conjunct2, rule_format, OF d'])
  have c4: "planner_prompt_correction_loop (sample_extern prose_answers) ?s
              = Inr (first_draft_prompt (task ?s))"
    by (rule T [THEN conjunct2, THEN conjunct2, THEN conjunct1, rule_format, OF disjI1, OF h3])
  from h2 have h2a: "turnCount ?t > 1" by (rule conjunct2 [THEN conjunct2])
  show ?thesis
    by (rule conjI h1 c1 h2a d c2 [unfolded tk] d' c3 h3 c4 [unfolded tk])+
qed

section \<open>The turn counter along a run\<close>

lemma stream_turn_count:
  "stream build_graph ext fuel k name s = (steps, r) \<Longrightarrow> state_of r = Some s' \<Longrightarrow>
   turnCount s' = turnCount s + int (supervisor_visits steps)"
proof (induction fuel arbitrary: k name s steps)
  case 0
  then show ?case by (auto simp add: supervisor_visits_def step_names_def split: if_splits)
next
  case (Suc fuel)
  show ?case
  proof (cases "name = END")
    case True
    with Suc.prems show ?thesis by (auto simp add: supervisor_visits_def step_names_def)
  next
    case False
    show ?thesis
    proof (cases "graph_step build_graph ext k name s")
      case (Inl e)
      with False Suc.prems show ?thesis by auto
    next
      case (Inr res)
      obtain u target s1 where res: "res = (u, target, s1)" by (cases res)
      obtain rest where rest: "stream build_graph ext fuel (Suc k) target s1 = (rest, r)"
        and steps: "steps = (name, u, target) # rest"
        using Suc.prems(1) False Inr res by (auto split: prod.splits)
      have ih: "turnCount s' = turnCount s1 + int (supervisor_visits rest)"
        using Suc.IH [OF rest Suc.prems(2)] .
      from graph_step_build_graph [OF Inr [unfolded res]]
      have "turnCount s1 = turnCount s + (if name = ''supervisor'' then 1 else 0)"
        by (auto simp add: turnCount_def)
      with ih steps show ?thesis
        by (simp add: supervisor_visits_def step_names_def)
    qed
  qed
qed

lemma stream_turn_updates:
  "stream build_graph ext fuel k name s = (steps, r) \<Longrightarrow>
   turn_updates steps = map (\<lambda>i. turnCount s + 1 + int i) [0..<supervisor_visits steps]
   \<and> (\<forall>(name, u, target) \<in> set steps. (name = ''supervisor'') = (\<exists>n. u = Upd_turn_count n))"
proof (induction fuel arbitrary: k name s steps)
  case 0
  then show ?case by (auto simp add: supervisor_visits_def step_names_def split: if_splits)
next
  case (Suc fuel)
  show ?case
  proof (cases "name = END")
    case True
    with Suc.prems show ?thesis by (auto simp add: supervisor_visits_def step_names_def)
  next
    case False
    show ?thesis
    proof (cases "graph_step build_graph ext k name s")
      case (Inl e)
      with False Suc.prems show ?thesis by (simp add: supervisor_visits_def step_names_def)
    next
      case (Inr res)
      obtain u target s1 where res: "res = (u, target, s1)" by (cases res)
      obtain rest where rest: "stream build_graph ext fuel (Suc k) target s1 = (rest, r)"
        and steps: "steps = (name, u, target) # rest"
        using Suc.prems(1) False Inr res by (auto split: prod.splits)
      note ih = Suc.IH [OF rest]
      note st = graph_step_build_graph [OF Inr [unfolded res]]
      show ?thesis
      proof (cases "name = ''supervisor''")
        case True
        with st have u: "u = Upd_turn_count (turnCount s + 1)" and s1: "turnCount s1 = turnCount s + 1"
          by (auto simp add: turnCount_def)
        have "map (\<lambda>i. turnCount s + 1 + int i) [0..<Suc (supervisor_visits rest)]
               = (turnCount s + 1) # map (\<lambda>i. turnCount s1 + 1 + int i) [0..<supervisor_visits rest]"
          by (simp add: s1 upt_conv_Cons map_Suc_upt [symmetric] del: upt_Suc)
        with ih True u steps show ?thesis
          by (simp add: supervisor_visits_def step_names_def)
      next
        case False
        with st have "turnCount s1 = turnCount s" "\<forall>n. u \<noteq> Upd_turn_count n"
          by (auto simp add: turnCount_def)
        with ih False steps show ?thesis
          by (cases u) (simp_all add: supervisor_visits_def step_names_def)
      qed
    qed
  qed
qed

text \<open>
  C8.  The supervisor returns the update of the turn counter to one more than it was, and
  merging it changes no other field.  In every run the steps that write the counter are
  exactly the supervisor steps, the values written are the successive numbers after the
  initial count, and the count reached is the initial count plus the number of supervisor
  steps: for a run that starts at 0, the final count is the number of supervisor steps.
\<close>

theorem supervisor_counts_visits:
  "supervisor_node s = Upd_turn_count (turnCount s + 1)
   \<and> merge s (supervisor_node s) = s\<lparr>turn_count := Some (turnCount s + 1)\<rparr>
   \<and> (run_graph build_graph ext fuel s = (steps, r) \<longrightarrow>
        (\<forall>(name, u, target) \<in> set steps. (name = ''supervisor'') = (\<exists>n. u = Upd_turn_count n))
        \<and> turn_updates steps = map (\<lambda>i. turnCount s + 1 + int i) [0..<supervisor_visits steps]
        \<and> (state_of r = Some s' \<longrightarrow> turnCount s' = turnCount s + int (supervisor_visits steps))
        \<and> (turnCount s = 0 \<and> r = Ended s' \<longrightarrow> turnCount s' = int (supervisor_visits steps)))"
proof (intro conjI impI)
  show "supervisor_node s = Upd_turn_count (turnCount s + 1)"
    by (simp add: supervisor_node_def turnCount_def Let_def split: option.splits)
  show "merge s (supervisor_node s) = s\<lparr>turn_count := Some (turnCount s + 1)\<rparr>"
    by (rule merge_supervisor)
next
  assume run: "run_graph build_graph ext fuel s = (steps, r)"
  then have st: "stream build_graph ext fuel 0 (entry_point build_graph) s = (steps, r)"
    by (simp add: run_graph_def)
  from stream_turn_updates [OF st]
  show "\<forall>(name, u, target) \<in> set steps. (name = ''supervisor'') = (\<exists>n. u = Upd_turn_count n)"
    and "turn_updates steps = map (\<lambda>i. turnCount s + 1 + int i) [0..<supervisor_visits steps]"
    by simp_all
  show "turnCount s' = turnCount s + int (supervisor_visits steps)" if "state_of r = Some s'"
    using stream_turn_count [OF st that] .
  show "turnCount s' = int (supervisor_visits steps)" if "turnCount s = 0 \<and> r = Ended s'"
    using stream_turn_count [OF st, of s'] that by simp
qed

theorem supervisor_counts_visits_witness:
  "run_graph build_graph (sample_extern prose_answers) 5 (initial_state ''X'' False)
     = ([(''supervisor'', Upd_turn_count 1, ''planner''),
         (''planner'', Upd_planner_proposal [(''plan'', PStr ''Step one.''), (''steps'', PList [])], ''supervisor''),
         (''supervisor'', Upd_turn_count 2, ''reviewer''),
         (''reviewer'',
          Upd_reviewer_feedback
            [(''feedback'', PStr ''Step one.''), (''has_issues'', PBool False), (''suggestions'', PList [])],
          ''supervisor''),
         (''supervisor'', Upd_turn_count 3, END)],
        Ended ((initial_state ''X'' False)
                 \<lparr>planner_proposal := Some [(''plan'', PStr ''Step one.''), (''steps'', PList [])],
                  reviewer_feedback :=
                    Some [(''feedback'', PStr ''Step one.''), (''has_issues'', PBool False),
                          (''suggestions'', PList [])],
                  turn_count := Some 3\<rparr>))
   \<and> turnCount (initial_state ''X'' False) = 0
   \<and> turnCount ((initial_state ''X'' False)
                 \<lparr>planner_proposal := Some [(''plan'', PStr ''Step one.''), (''steps'', PList [])],
                  reviewer_feedback :=
                    Some [(''feedback'', PStr ''Step one.''), (''has_issues'', PBool False),
                          (''suggestions'', PList [])],
                  turn_count := Some 3\<rparr>) = 3"
proof -
  let ?steps = "[(''supervisor'', Upd_turn_count 1, ''planner''),
         (''planner'', Upd_planner_proposal [(''plan'', PStr ''Step one.''), (''steps'', PList [])], ''supervisor''),
         (''supervisor'', Upd_turn_count 2, ''reviewer''),
         (''reviewer'',
          Upd_reviewer_feedback
            [(''feedback'', PStr ''Step one.''), (''has_issues'', PBool False), (''suggestions'', PList [])],
          ''supervisor''),
         (''supervisor'', Upd_turn_count 3, END)]"
  let ?s' = "(initial_state ''X'' False)
                 \<lparr>planner_proposal := Some [(''plan'', PStr ''Step one.''), (''steps'', PList [])],
                  reviewer_feedback :=
                    Some [(''feedback'', PStr ''Step one.''), (''has_issues'', PBool False),
                          (''suggestions'', PList [])],
                  turn_count := Some 3\<rparr>"
  have run: "run_graph build_graph (sample_extern prose_answers) 5 (initial_state ''X'' False)
              = (?steps, Ended ?s')"
    by code_simp
  have zero: "turnCount (initial_state ''X'' False) = 0"
    by (simp add: turnCount_def initial_state_def)
  have visits: "supervisor_visits ?steps = 3"
    by (simp add: supervisor_visits_def step_names_def)
  from supervisor_counts_visits
         [of "initial_state ''X'' False" "sample_extern prose_answers" 5 ?steps "Ended ?s'" ?s']
  have "turnCount ?s' = int (supervisor_visits ?steps)"
    using run zero by blast
  with run zero visits show ?thesis by simp
qed

section \<open>The strict flag\<close>

lemma planner_node_strict: "planner_node ext k (s\<lparr>strict := b\<rparr>) = planner_node ext k s"
  by (simp add: planner_node_def planner_prompt_def)

lemma reviewer_node_strict:
  assumes "tone_blind ext"
  shows "reviewer_node ext k (s\<lparr>strict := b\<rparr>) = reviewer_node ext k s"
proof (cases "planner_proposal s")
  case None
  then show ?thesis by (simp add: reviewer_node_def)
next
  case (Some plan)
  show ?thesis
  proof (cases "dumps ext (PDict plan) 2")
    case (Inl e)
    with Some show ?thesis by (simp add: reviewer_node_def)
  next
    case (Inr plan_json)
    have gen: "generate ext k model (reviewer_prompt plan_json x)
                 = generate ext k model (reviewer_prompt plan_json y)" for model x y
      using assms Inr unfolding tone_blind_def by (cases x; cases y) auto
    have rt: "reviewer_try ext k model (reviewer_prompt plan_json x)
                = reviewer_try ext k model (reviewer_prompt plan_json y)" for model x y
      unfolding reviewer_try_def by (simp only: gen [of model x y])
    show ?thesis
      using Some Inr
        rt [of "llm s" "case b of Some x \<Rightarrow> x | None \<Rightarrow> False"
               "case strict s of Some x \<Rightarrow> x | None \<Rightarrow> False"]
      by (simp add: reviewer_node_def Let_def)
  qed
qed

lemma router_logic_strict: "router_logic (s\<lparr>strict := b\<rparr>) = router_logic s"
  by (simp add: router_logic_def)

lemma merge_strict: "merge (s\<lparr>strict := b\<rparr>) u = (merge s u)\<lparr>strict := b\<rparr>"
  by (cases u) simp_all

lemma graph_step_strict:
  assumes "tone_blind ext"
  shows "graph_step build_graph ext k name (s\<lparr>strict := b\<rparr>) =
           (case graph_step build_graph ext k name s of
              Inl e \<Rightarrow> Inl e
            | Inr (u, target, s') \<Rightarrow> Inr (u, target, s'\<lparr>strict := b\<rparr>))"
proof -
  have node: "node ext k (s\<lparr>strict := b\<rparr>) = node ext k s"
    if "map_of (nodes build_graph) name = Some node" for node
    using that reviewer_node_strict [OF assms]
    by (auto simp add: build_graph_def planner_node_strict supervisor_node_def split: if_splits)
  have nxt: "next_node build_graph name (t\<lparr>strict := b\<rparr>) = next_node build_graph name t" for t
    by (simp add: next_node_def build_graph_def router_logic_strict)
  show ?thesis
    by (simp add: graph_step_def node merge_strict nxt Let_def split: option.splits sum.splits)
qed

lemma stream_strict:
  assumes "tone_blind ext"
  shows "stream build_graph ext fuel k name (s\<lparr>strict := b\<rparr>) =
           (case stream build_graph ext fuel k name s of (steps, r) \<Rightarrow> (steps, with_strict b r))"
proof (induction fuel arbitrary: k name s)
  case 0
  show ?case by simp
next
  case (Suc fuel)
  show ?case
    by (simp add: graph_step_strict [OF assms] Suc.IH split: sum.splits prod.splits)
qed

lemma final_turn_count_with_strict: "final_turn_count (with_strict b r) = final_turn_count r"
  by (cases r) (simp_all add: turnCount_def)

text \<open>
  C9.  When the service answers alike for either tone of the reviewer's prompt, changing the
  strict flag of the initial state changes nothing in the run: the same steps with the same
  updates, hence the same router decisions, the same sequence of nodes and the same final
  turn count.
\<close>

theorem strict_no_control_flow:
  assumes "tone_blind ext"
  shows "fst (run_graph build_graph ext fuel (s\<lparr>strict := b\<rparr>)) = fst (run_graph build_graph ext fuel s)
     \<and> router_decisions (fst (run_graph build_graph ext fuel (s\<lparr>strict := b\<rparr>)))
         = router_decisions (fst (run_graph build_graph ext fuel s))
     \<and> step_names (fst (run_graph build_graph ext fuel (s\<lparr>strict := b\<rparr>)))
         = step_names (fst (run_graph build_graph ext fuel s))
     \<and> final_turn_count (snd (run_graph build_graph ext fuel (s\<lparr>strict := b\<rparr>)))
         = final_turn_count (snd (run_graph build_graph ext fuel s))"
  by (simp add: run_graph_def stream_strict [OF assms] final_turn_count_with_strict split: prod.splits)

theorem strict_no_control_flow_witness:
  "tone_blind (sample_extern prose_answers)
   \<and> step_names (fst (run_graph build_graph (sample_extern prose_answers) 5
                         ((initial_state ''X'' False)\<lparr>strict := Some True\<rparr>)))
       = [''supervisor'', ''planner'', ''supervisor'', ''reviewer'', ''supervisor'']
   \<and> step_names (fst (run_graph build_graph (sample_extern prose_answers) 5 (initial_state ''X'' False)))
       = [''supervisor'', ''planner'', ''supervisor'', ''reviewer'', ''supervisor'']
   \<and> final_turn_count (snd (run_graph build_graph (sample_extern prose_answers) 5
                         ((initial_state ''X'' False)\<lparr>strict := Some True\<rparr>)))
       = Some 3"
proof -
  have tb: "tone_blind (sample_extern prose_answers)"
    by (simp add: tone_blind_def sample_extern_def)
  have names: "step_names (fst (run_graph build_graph (sample_extern prose_answers) 5 (initial_state ''X'' False)))
       = [''supervisor'', ''planner'', ''supervisor'', ''reviewer'', ''supervisor'']"
    by code_simp
  have fin: "final_turn_count (snd (run_graph build_graph (sample_extern prose_answers) 5 (initial_state ''X'' False)))
       = Some 3"
    by code_simp
  from strict_no_control_flow [OF tb, where fuel = 5 and s = "initial_state ''X'' False" and b = "Some True"] tb names fin
  show ?thesis by simp
qed

section \<open>Whole runs\<close>

lemma run_without_issues:
  assumes "absent (planner_proposal s)" and "absent (reviewer_feedback s)" and "turnCount s = 0"
    and "planner_node ext 1 (s\<lparr>turn_count := Some 1\<rparr>) = Inr (Upd_planner_proposal p)"
    and "p \<noteq> []"
    and "reviewer_node ext 3 (s\<lparr>planner_proposal := Some p, turn_count := Some 2\<rparr>)
           = Inr (Upd_reviewer_feedback f)"
    and "f \<noteq> []"
    and "\<not> hasIssues (s\<lparr>reviewer_feedback := Some f\<rparr>)"
  shows "run_graph build_graph ext (5 + n) s
           = ([(''supervisor'', Upd_turn_count 1, ''planner''),
               (''planner'', Upd_planner_proposal p, ''supervisor''),
               (''supervisor'', Upd_turn_count 2, ''reviewer''),
               (''reviewer'', Upd_reviewer_feedback f, ''supervisor''),
               (''supervisor'', Upd_turn_count 3, END)],
              Ended (s\<lparr>planner_proposal := Some p, reviewer_feedback := Some f, turn_count := Some 3\<rparr>))"
proof -
  let ?s1 = "s\<lparr>turn_count := Some 1\<rparr>"
  let ?s2 = "s\<lparr>planner_proposal := Some p, turn_count := Some 1\<rparr>"
  let ?s3 = "s\<lparr>planner_proposal := Some p, turn_count := Some 2\<rparr>"
  let ?s4 = "s\<lparr>planner_proposal := Some p, reviewer_feedback := Some f, turn_count := Some 2\<rparr>"
  let ?s5 = "s\<lparr>planner_proposal := Some p, reviewer_feedback := Some f, turn_count := Some 3\<rparr>"
  have r1: "router_logic ?s1 = ''planner''"
    using assms(1) by (simp add: router_logic_cases)
  have r3: "router_logic ?s3 = ''reviewer''"
    using assms(2,5) by (simp add: router_logic_cases absent_def)
  have r5: "router_logic ?s5 = END"
    using assms(5,7,8) by (simp add: router_logic_cases absent_def hasIssues_def)
  have g0: "graph_step build_graph ext 0 ''supervisor'' s = Inr (Upd_turn_count 1, ''planner'', ?s1)"
    using assms(3) r1 by (simp add: step_supervisor)
  have g1: "graph_step build_graph ext 1 ''planner'' ?s1 = Inr (Upd_planner_proposal p, ''supervisor'', ?s2)"
    using step_planner [OF assms(4)] by simp
  have g2: "graph_step build_graph ext 2 ''supervisor'' ?s2 = Inr (Upd_turn_count 2, ''reviewer'', ?s3)"
    using r3 by (simp add: step_supervisor turnCount_def)
  have g3: "graph_step build_graph ext 3 ''reviewer'' ?s3 = Inr (Upd_reviewer_feedback f, ''supervisor'', ?s4)"
    using step_reviewer [OF assms(6)] by simp
  have g4: "graph_step build_graph ext 4 ''supervisor'' ?s4 = Inr (Upd_turn_count 3, END, ?s5)"
    using r5 by (simp add: step_supervisor turnCount_def)
  have ne: "''supervisor'' \<noteq> END" "''planner'' \<noteq> END" "''reviewer'' \<noteq> END"
    by (simp_all add: END_def)
  have e5: "stream build_graph ext n 5 END ?s5 = ([], Ended ?s5)"
    by (rule stream_END)
  have e4: "stream build_graph ext (Suc n) 4 ''supervisor'' ?s4
              = ([(''supervisor'', Upd_turn_count 3, END)], Ended ?s5)"
    by (rule stream_step [OF ne(1) g4 e5]) simp
  have e3: "stream build_graph ext (Suc (Suc n)) 3 ''reviewer'' ?s3
              = ([(''reviewer'', Upd_reviewer_feedback f, ''supervisor''),
                  (''supervisor'', Upd_turn_count 3, END)], Ended ?s5)"
    by (rule stream_step [OF ne(3) g3 e4]) simp
  have e2: "stream build_graph ext (Suc (Suc (Suc n))) 2 ''supervisor'' ?s2
              = ([(''supervisor'', Upd_turn_count 2, ''reviewer''),
                  (''reviewer'', Upd_reviewer_feedback f, ''supervisor''),
                  (''supervisor'', Upd_turn_count 3, END)], Ended ?s5)"
    by (rule stream_step [OF ne(1) g2 e3]) simp
  have e1: "stream build_graph ext (Suc (Suc (Suc (Suc n)))) 1 ''planner'' ?s1
              = ([(''planner'', Upd_planner_proposal p, ''supervisor''),
                  (''supervisor'', Upd_turn_count 2, ''reviewer''),
                  (''reviewer'', Upd_reviewer_feedback f, ''supervisor''),
                  (''supervisor'', Upd_turn_count 3, END)], Ended ?s5)"
    by (rule stream_step [OF ne(2) g1 e2]) simp
  have e0: "stream build_graph ext (Suc (Suc (Suc (Suc (Suc n))))) 0 ''supervisor'' s
              = ([(''supervisor'', Upd_turn_count 1, ''planner''),
                  (''planner'', Upd_planner_proposal p, ''supervisor''),
                  (''supervisor'', Upd_turn_count 2, ''reviewer''),
                  (''reviewer'', Upd_reviewer_feedback f, ''supervisor''),
                  (''supervisor'', Upd_turn_count 3, END)], Ended ?s5)"
    using stream_step [OF ne(1) g0, of "Suc (Suc (Suc (Suc n)))"] e1 by (simp del: stream.simps)
  have fuel: "5 + n = Suc (Suc (Suc (Suc (Suc n))))" by simp
  have entry: "entry_point build_graph = ''supervisor''" by (simp add: build_graph_def)
  have run: "run_graph build_graph ext (5 + n) s
           = ([(''supervisor'', Upd_turn_count 1, ''planner''),
               (''planner'', Upd_planner_proposal p, ''supervisor''),
               (''supervisor'', Upd_turn_count 2, ''reviewer''),
               (''reviewer'', Upd_reviewer_feedback f, ''supervisor''),
               (''supervisor'', Upd_turn_count 3, END)],
              Ended ?s5)"
    unfolding run_graph_def fuel entry by (rule e0)
  show ?thesis by (rule run)
qed

text \<open>
  The claim C6 as it stands fails: when the reviewer's first answer is \<^verbatim>\<open>{}\<close>, the review
  reports no issues, yet the router takes the feedback for absent and sends the reviewer
  again; the run has seven steps and ends with turn count 4.
\<close>

theorem scenario_A_empty_review_counterexample:
  "step_names (fst (run_graph build_graph (sample_extern empty_review_answers) 12 (initial_state ''X'' False)))
     = [''supervisor'', ''planner'', ''supervisor'', ''reviewer'', ''supervisor'', ''reviewer'',
        ''supervisor'']
   \<and> fst (run_graph build_graph (sample_extern empty_review_answers) 12 (initial_state ''X'' False)) ! 3
     = (''reviewer'', Upd_reviewer_feedback [], ''supervisor'')
   \<and> \<not> hasIssues (merge (initial_state ''X'' False) (Upd_reviewer_feedback []))
   \<and> final_turn_count (snd (run_graph build_graph (sample_extern empty_review_answers) 12 (initial_state ''X'' False)))
     = Some 4"
  by code_simp

text \<open>
  C6, amended.  From a state without proposal and feedback and with turn count 0, when the
  planner's first record is not empty and the reviewer's first record is not empty and has
  no issues, the run is supervisor, planner, supervisor, reviewer, supervisor, then it
  stops, with turn count 3.
\<close>

theorem scenario_A:
  assumes "absent (planner_proposal s)" and "absent (reviewer_feedback s)" and "turnCount s = 0"
    and "planner_node ext 1 (s\<lparr>turn_count := Some 1\<rparr>) = Inr (Upd_planner_proposal p)"
    and "p \<noteq> []"
    and "reviewer_node ext 3 (s\<lparr>planner_proposal := Some p, turn_count := Some 2\<rparr>)
           = Inr (Upd_reviewer_feedback f)"
    and "f \<noteq> []"
    and "\<not> hasIssues (s\<lparr>reviewer_feedback := Some f\<rparr>)"
  shows "run_graph build_graph ext (5 + n) s
           = ([(''supervisor'', Upd_turn_count 1, ''planner''),
               (''planner'', Upd_planner_proposal p, ''supervisor''),
               (''supervisor'', Upd_turn_count 2, ''reviewer''),
               (''reviewer'', Upd_reviewer_feedback f, ''supervisor''),
               (''supervisor'', Upd_turn_count 3, END)],
              Ended (s\<lparr>planner_proposal := Some p, reviewer_feedback := Some f, turn_count := Some 3\<rparr>))
         \<and> step_names (fst (run_graph build_graph ext (5 + n) s))
           = [''supervisor'', ''planner'', ''supervisor'', ''reviewer'', ''supervisor'']
         \<and> final_turn_count (snd (run_graph build_graph ext (5 + n) s)) = Some 3"
  using run_without_issues [OF assms, of n]
  by (simp add: step_names_def turnCount_def)

theorem scenario_A_witness:
  "absent (planner_proposal (initial_state ''X'' False))
   \<and> absent (reviewer_feedback (initial_state ''X'' False))
   \<and> turnCount (initial_state ''X'' False) = 0
   \<and> planner_node (sample_extern prose_answers) 1 ((initial_state ''X'' False)\<lparr>turn_count := Some 1\<rparr>)
       = Inr (Upd_planner_proposal [(''plan'', PStr ''Step one.''), (''steps'', PList [])])
   \<and> reviewer_node (sample_extern prose_answers) 3
        ((initial_state ''X'' False)
           \<lparr>planner_proposal := Some [(''plan'', PStr ''Step one.''), (''steps'', PList [])],
            turn_count := Some 2\<rparr>)
       = Inr (Upd_reviewer_feedback
                [(''feedback'', PStr ''Step one.''), (''has_issues'', PBool False), (''suggestions'', PList [])])
   \<and> \<not> hasIssues ((initial_state ''X'' False)
          \<lparr>reviewer_feedback :=
             Some [(''feedback'', PStr ''Step one.''), (''has_issues'', PBool False), (''suggestions'', PList [])]\<rparr>)
   \<and> step_names (fst (run_graph build_graph (sample_extern prose_answers) 5 (initial_state ''X'' False)))
       = [''supervisor'', ''planner'', ''supervisor'', ''reviewer'', ''supervisor'']
   \<and> final_turn_count (snd (run_graph build_graph (sample_extern prose_answers) 5 (initial_state ''X'' False)))
       = Some 3"
proof -
  let ?s = "initial_state ''X'' False"
  let ?p = "[(''plan'', PStr ''Step one.''), (''steps'', PList [])]"
  let ?f = "[(''feedback'', PStr ''Step one.''), (''has_issues'', PBool False), (''suggestions'', PList [])]"
  have a1: "absent (planner_proposal ?s)" by (simp add: initial_state_def absent_def)
  have a2: "absent (reviewer_feedback ?s)" by (simp add: initial_state_def absent_def)
  have a3: "turnCount ?s = 0" by (simp add: initial_state_def turnCount_def)
  have a4: "planner_node (sample_extern prose_answers) 1 (?s\<lparr>turn_count := Some 1\<rparr>)
              = Inr (Upd_planner_proposal ?p)"
    by code_simp
  have a5: "?p \<noteq> []" by simp
  have a6: "reviewer_node (sample_extern prose_answers) 3 (?s\<lparr>planner_proposal := Some ?p, turn_count := Some 2\<rparr>)
              = Inr (Upd_reviewer_feedback ?f)"
    by code_simp
  have a7: "?f \<noteq> []" by simp
  have a8: "\<not> hasIssues (?s\<lparr>reviewer_feedback := Some ?f\<rparr>)" by (simp add: hasIssues_def)
  from scenario_A [OF a1 a2 a3 a4 a5 a6 a7 a8, of 0] a1 a2 a3 a4 a6 a8
  show ?thesis by (simp add: step_names_def turnCount_def)
qed

lemma run_with_issues:
  assumes "absent (planner_proposal s)" and "absent (reviewer_feedback s)" and "turnCount s = 0"
    and "planner_node ext 1 (s\<lparr>turn_count := Some 1\<rparr>) = Inr (Upd_planner_proposal p)"
    and "p \<noteq> []"
    and "reviewer_node ext 3 (s\<lparr>planner_proposal := Some p, turn_count := Some 2\<rparr>)
           = Inr (Upd_reviewer_feedback f)"
    and "f \<noteq> []"
    and "hasIssues (s\<lparr>reviewer_feedback := Some f\<rparr>)"
    and "planner_node ext 5 (s\<lparr>planner_proposal := Some p, reviewer_feedback := Some f, turn_count := Some 3\<rparr>)
           = Inr (Upd_planner_proposal p')"
    and "p' \<noteq> []"
    and "planner_node ext 7 (s\<lparr>planner_proposal := Some p', reviewer_feedback := Some f, turn_count := Some 4\<rparr>)
           = Inr (Upd_planner_proposal p'')"
    and "p'' \<noteq> []"
  shows "run_graph build_graph ext (9 + n) s
           = ([(''supervisor'', Upd_turn_count 1, ''planner''),
               (''planner'', Upd_planner_proposal p, ''supervisor''),
               (''supervisor'', Upd_turn_count 2, ''reviewer''),
               (''reviewer'', Upd_reviewer_feedback f, ''supervisor''),
               (''supervisor'', Upd_turn_count 3, ''planner''),
               (''planner'', Upd_planner_proposal p', ''supervisor''),
               (''supervisor'', Upd_turn_count 4, ''planner''),
               (''planner'', Upd_planner_proposal p'', ''supervisor''),
               (''supervisor'', Upd_turn_count 5, END)],
              Ended (s\<lparr>planner_proposal := Some p'', reviewer_feedback := Some f, turn_count := Some 5\<rparr>))"
proof -
  let ?s1 = "s\<lparr>turn_count := Some 1\<rparr>"
  let ?s2 = "s\<lparr>planner_proposal := Some p, turn_count := Some 1\<rparr>"
  let ?s3 = "s\<lparr>planner_proposal := Some p, turn_count := Some 2\<rparr>"
  let ?s4 = "s\<lparr>planner_proposal := Some p, reviewer_feedback := Some f, turn_count := Some 2\<rparr>"
  let ?s5 = "s\<lparr>planner_proposal := Some p, reviewer_feedback := Some f, turn_count := Some 3\<rparr>"
  let ?s6 = "s\<lparr>planner_proposal := Some p', reviewer_feedback := Some f, turn_count := Some 3\<rparr>"
  let ?s7 = "s\<lparr>planner_proposal := Some p', reviewer_feedback := Some f, turn_count := Some 4\<rparr>"
  let ?s8 = "s\<lparr>planner_proposal := Some p'', reviewer_feedback := Some f, turn_count := Some 4\<rparr>"
  let ?s9 = "s\<lparr>planner_proposal := Some p'', reviewer_feedback := Some f, turn_count := Some 5\<rparr>"
  have r1: "router_logic ?s1 = ''planner''"
    using assms(1) by (simp add: router_logic_cases)
  have r3: "router_logic ?s3 = ''reviewer''"
    using assms(2,5) by (simp add: router_logic_cases absent_def)
  have r5: "router_logic ?s5 = ''planner''"
    using assms(5,7,8) by (simp add: router_logic_cases absent_def hasIssues_def turnCount_def)
  have r7: "router_logic ?s7 = ''planner''"
    using assms(10,7,8) by (simp add: router_logic_cases absent_def hasIssues_def turnCount_def)
  have r9: "router_logic ?s9 = END"
    using assms(12,7,8) by (simp add: router_logic_cases absent_def hasIssues_def turnCount_def)
  have g0: "graph_step build_graph ext 0 ''supervisor'' s = Inr (Upd_turn_count 1, ''planner'', ?s1)"
    using assms(3) r1 by (simp add: step_supervisor)
  have g1: "graph_step build_graph ext 1 ''planner'' ?s1 = Inr (Upd_planner_proposal p, ''supervisor'', ?s2)"
    using step_planner [OF assms(4)] by simp
  have g2: "graph_step build_graph ext 2 ''supervisor'' ?s2 = Inr (Upd_turn_count 2, ''reviewer'', ?s3)"
    using r3 by (simp add: step_supervisor turnCount_def)
  have g3: "graph_step build_graph ext 3 ''reviewer'' ?s3 = Inr (Upd_reviewer_feedback f, ''supervisor'', ?s4)"
    using step_reviewer [OF assms(6)] by simp
  have g4: "graph_step build_graph ext 4 ''supervisor'' ?s4 = Inr (Upd_turn_count 3, ''planner'', ?s5)"
    using r5 by (simp add: step_supervisor turnCount_def)
  have g5: "graph_step build_graph ext 5 ''planner'' ?s5 = Inr (Upd_planner_proposal p', ''supervisor'', ?s6)"
    using step_planner [OF assms(9)] by simp
  have g6: "graph_step build_graph ext 6 ''supervisor'' ?s6 = Inr (Upd_turn_count 4, ''planner'', ?s7)"
    using r7 by (simp add: step_supervisor turnCount_def)
  have g7: "graph_step build_graph ext 7 ''planner'' ?s7 = Inr (Upd_planner_proposal p'', ''supervisor'', ?s8)"
    using step_planner [OF assms(11)] by simp
  have g8: "graph_step build_graph ext 8 ''supervisor'' ?s8 = Inr (Upd_turn_count 5, END, ?s9)"
    using r9 by (simp add: step_supervisor turnCount_def)
  have ne: "''supervisor'' \<noteq> END" "''planner'' \<noteq> END" "''reviewer'' \<noteq> END"
    by (simp_all add: END_def)
  have e9: "stream build_graph ext n 9 END ?s9 = ([], Ended ?s9)"
    by (rule stream_END)
  note e8 = stream_step [OF ne(1) g8 e9]
  have e8': "stream build_graph ext (Suc n) 8 ''supervisor'' ?s8
               = ([(''supervisor'', Upd_turn_count 5, END)], Ended ?s9)"
    by (rule e8) simp
  note e7 = stream_step [OF ne(2) g7 e8']
  have e7': "stream build_graph ext (Suc (Suc n)) 7 ''planner'' ?s7
               = ([(''planner'', Upd_planner_proposal p'', ''supervisor''),
                   (''supervisor'', Upd_turn_count 5, END)], Ended ?s9)"
    by (rule e7) simp
  note e6 = stream_step [OF ne(1) g6 e7']
  have e6': "stream build_graph ext (Suc (Suc (Suc n))) 6 ''supervisor'' ?s6
               = ([(''supervisor'', Upd_turn_count 4, ''planner''),
                   (''planner'', Upd_planner_proposal p'', ''supervisor''),
                   (''supervisor'', Upd_turn_count 5, END)], Ended ?s9)"
    by (rule e6) simp
  note e5 = stream_step [OF ne(2) g5 e6']
  have e5': "stream build_graph ext (Suc (Suc (Suc (Suc n)))) 5 ''planner'' ?s5
               = ([(''planner'', Upd_planner_proposal p', ''supervisor''),
                   (''supervisor'', Upd_turn_count 4, ''planner''),
                   (''planner'', Upd_planner_proposal p'', ''supervisor''),
                   (''supervisor'', Upd_turn_count 5, END)], Ended ?s9)"
    by (rule e5) simp
  note e4 = stream_step [OF ne(1) g4 e5']
  have e4': "stream build_graph ext (Suc (Suc (Suc (Suc (Suc n))))) 4 ''supervisor'' ?s4
               = ([(''supervisor'', Upd_turn_count 3, ''planner''),
                   (''planner'', Upd_planner_proposal p', ''supervisor''),
                   (''supervisor'', Upd_turn_count 4, ''planner''),
                   (''planner'', Upd_planner_proposal p'', ''supervisor''),
                   (''supervisor'', Upd_turn_count 5, END)], Ended ?s9)"
    by (rule e4) simp
  note e3 = stream_step [OF ne(3) g3 e4']
  have e3': "stream build_graph ext (Suc (Suc (Suc (Suc (Suc (Suc n)))))) 3 ''reviewer'' ?s3
               = ([(''reviewer'', Upd_reviewer_feedback f, ''supervisor''),
                   (''supervisor'', Upd_turn_count 3, ''planner''),
                   (''planner'', Upd_planner_proposal p', ''supervisor''),
                   (''supervisor'', Upd_turn_count 4, ''planner''),
                   (''planner'', Upd_planner_proposal p'', ''supervisor''),
                   (''supervisor'', Upd_turn_count 5, END)], Ended ?s9)"
    by (rule e3) simp
  note e2 = stream_step [OF ne(1) g2 e3']
  have e2': "stream build_graph ext (Suc (Suc (Suc (Suc (Suc (Suc (Suc n))))))) 2 ''supervisor'' ?s2
               = ([(''supervisor'', Upd_turn_count 2, ''reviewer''),
                   (''reviewer'', Upd_reviewer_feedback f, ''supervisor''),
                   (''supervisor'', Upd_turn_count 3, ''planner''),
                   (''planner'', Upd_planner_proposal p', ''supervisor''),
                   (''supervisor'', Upd_turn_count 4, ''planner''),
                   (''planner'', Upd_planner_proposal p'', ''supervisor''),
                   (''supervisor'', Upd_turn_count 5, END)], Ended ?s9)"
    by (rule e2) simp
  note e1 = stream_step [OF ne(2) g1 e2']
  have e1': "stream build_graph ext (Suc (Suc (Suc (Suc (Suc (Suc (Suc (Suc n)))))))) 1 ''planner'' ?s1
               = ([(''planner'', Upd_planner_proposal p, ''supervisor''),
                   (''supervisor'', Upd_turn_count 2, ''reviewer''),
                   (''reviewer'', Upd_reviewer_feedback f, ''supervisor''),
                   (''supervisor'', Upd_turn_count 3, ''planner''),
                   (''planner'', Upd_planner_proposal p', ''supervisor''),
                   (''supervisor'', Upd_turn_count 4, ''planner''),
                   (''planner'', Upd_planner_proposal p'', ''supervisor''),
                   (''supervisor'', Upd_turn_count 5, END)], Ended ?s9)"
    by (rule e1) simp
  note e0 = stream_step [OF ne(1) g0 e1']
  have fuel: "9 + n = Suc (Suc (Suc (Suc (Suc (Suc (Suc (Suc (Suc n))))))))" by simp
  have entry: "entry_point build_graph = ''supervisor''" by (simp add: build_graph_def)
  show ?thesis
    unfolding run_graph_def fuel entry by (rule e0) simp
qed

lemma planner_node_nonempty:
  assumes "nonempty_answers ext"
  shows "\<exists>d. d \<noteq> [] \<and> planner_node ext k s = Inr (Upd_planner_proposal d)"
proof (cases "generate ext k (llm s) (planner_prompt s)")
  case (Inl e)
  then show ?thesis by (simp add: planner_node_def planner_try_def)
next
  case (Inr answer)
  with assms have "loads ext (strip answer) \<noteq> Some (PDict [])"
    unfolding nonempty_answers_def by blast
  with Inr show ?thesis
    by (auto simp add: planner_node_def planner_try_def coerce_proposal_def Let_def
          split: option.splits pyval.splits sum.splits)
qed

lemma reviewer_node_nonempty:
  assumes "nonempty_answers ext" and "planner_proposal s = Some plan"
    and "dumps ext (PDict plan) 2 = Inr plan_json"
  shows "\<exists>d. d \<noteq> [] \<and> reviewer_node ext k s = Inr (Upd_reviewer_feedback d)"
proof (cases "generate ext k (llm s)
                (reviewer_prompt plan_json (case strict s of Some b \<Rightarrow> b | None \<Rightarrow> False))")
  case (Inl e)
  with assms(2,3) show ?thesis by (simp add: reviewer_node_def reviewer_try_def)
next
  case (Inr answer)
  with assms(1) have "loads ext (strip answer) \<noteq> Some (PDict [])"
    unfolding nonempty_answers_def by blast
  with Inr assms(2,3) show ?thesis
    by (auto simp add: reviewer_node_def reviewer_try_def coerce_feedback_def Let_def
          split: option.splits pyval.splits sum.splits)
qed

text \<open>
  As long as no answer parses to the empty object and \<^verbatim>\<open>json.dumps\<close> gives a text, a run from
  a fresh state ends within nine steps, whatever the reviewer says.
\<close>

lemma bounded_when_nonempty:
  assumes "nonempty_answers ext" and "dumps_total ext"
    and "absent (planner_proposal s)" and "absent (reviewer_feedback s)" and "turnCount s = 0"
  shows "\<exists>steps s'. run_graph build_graph ext 12 s = (steps, Ended s') \<and> length steps \<le> 9"
proof -
  obtain p where p: "p \<noteq> []"
      "planner_node ext 1 (s\<lparr>turn_count := Some 1\<rparr>) = Inr (Upd_planner_proposal p)"
    using planner_node_nonempty [OF assms(1)] by blast
  obtain plan_json where j: "dumps ext (PDict p) 2 = Inr plan_json"
    using assms(2) unfolding dumps_total_def by blast
  obtain f where f: "f \<noteq> []"
      "reviewer_node ext 3 (s\<lparr>planner_proposal := Some p, turn_count := Some 2\<rparr>)
         = Inr (Upd_reviewer_feedback f)"
    using reviewer_node_nonempty
            [OF assms(1) _ j, of "s\<lparr>planner_proposal := Some p, turn_count := Some 2\<rparr>"]
    by auto
  show ?thesis
  proof (cases "hasIssues (s\<lparr>reviewer_feedback := Some f\<rparr>)")
    case False
    from run_without_issues [OF assms(3,4,5) p(2,1) f(2,1) False, of 7]
    show ?thesis by simp
  next
    case True
    obtain p' where p': "p' \<noteq> []"
        "planner_node ext 5 (s\<lparr>planner_proposal := Some p, reviewer_feedback := Some f, turn_count := Some 3\<rparr>)
           = Inr (Upd_planner_proposal p')"
      using planner_node_nonempty [OF assms(1)] by blast
    obtain p'' where p'': "p'' \<noteq> []"
        "planner_node ext 7 (s\<lparr>planner_proposal := Some p', reviewer_feedback := Some f, turn_count := Some 4\<rparr>)
           = Inr (Upd_planner_proposal p'')"
      using planner_node_nonempty [OF assms(1)] by blast
    from run_with_issues [OF assms(3,4,5) p(2,1) f(2,1) True p'(2,1) p''(2,1), of 3]
    show ?thesis by simp
  qed
qed

lemma stream_always_empty:
  assumes "absent (planner_proposal s)" "name = ''supervisor'' \<or> name = ''planner''"
  shows "length (fst (stream build_graph always_empty fuel k name s)) = fuel
         \<and> (\<exists>name' s'. snd (stream build_graph always_empty fuel k name s) = Unfinished name' s')"
  using assms
proof (induction fuel arbitrary: k name s)
  case 0
  then show ?case by (auto simp add: END_def)
next
  case (Suc fuel)
  from Suc.prems(2) show ?case
  proof
    assume n: "name = ''supervisor''"
    let ?s = "s\<lparr>turn_count := Some (turnCount s + 1)\<rparr>"
    have a: "absent (planner_proposal ?s)" using Suc.prems(1) by simp
    then have r: "router_logic ?s = ''planner''" by (simp add: router_logic_cases)
    from Suc.IH [OF a, of "''planner''" "Suc k"] n r show ?thesis
      by (auto simp add: step_supervisor END_def split: prod.splits)
  next
    assume n: "name = ''planner''"
    let ?s = "merge s (Upd_planner_proposal [])"
    have a: "absent (planner_proposal ?s)" by (simp add: absent_def)
    from Suc.IH [OF a, of "''supervisor''" "Suc k"] n show ?thesis
      by (auto simp add: step_planner [OF planner_node_always_empty] END_def split: prod.splits)
  qed
qed

text \<open>
  C2.  The bound does not hold for every run.  With a service whose every answer is \<^verbatim>\<open>{}\<close>
  the router keeps sending the planner: after any number of steps the run has executed
  that many steps and has not reached \<^verbatim>\<open>END\<close>, so it is still running after 12 steps and
  goes on until the library's recursion limit aborts it.
\<close>

theorem empty_records_never_end:
  "length (fst (run_graph build_graph always_empty fuel (initial_state task_text strict_flag))) = fuel
   \<and> invoke build_graph always_empty fuel (initial_state task_text strict_flag) = None"
proof -
  have "absent (planner_proposal (initial_state task_text strict_flag))"
    by (simp add: initial_state_def absent_def)
  from stream_always_empty [OF this, of "''supervisor''" fuel 0]
  show ?thesis
    by (auto simp add: run_graph_def invoke_def build_graph_def)
qed

text \<open>
  C3.  A plan made on a loop-back is not reviewed.  The planner answers in prose, the
  reviewer reports issues: after the loop-back planner run at turn 3 the router sends the
  planner again at turn 4 and stops at turn 5; the reviewer has run once.
\<close>

theorem stale_feedback_trace:
  "step_names (fst (run_graph build_graph (sample_extern issues_answers) 12 (initial_state ''X'' False)))
     = [''supervisor'', ''planner'', ''supervisor'', ''reviewer'', ''supervisor'', ''planner'',
        ''supervisor'', ''planner'', ''supervisor'']
   \<and> router_decisions (fst (run_graph build_graph (sample_extern issues_answers) 12 (initial_state ''X'' False)))
     = [''planner'', ''reviewer'', ''planner'', ''planner'', END]
   \<and> final_turn_count (snd (run_graph build_graph (sample_extern issues_answers) 12 (initial_state ''X'' False)))
     = Some 5"
  by code_simp

end
